theory Spec2Isabelle
  imports Complex_Main
begin

section \<open>Python values and errors\<close>

text \<open>
  The controller class \<^verbatim>\<open>AiZynthFinder\<close> moves JSON-like values between a request
  mapping, the configuration and the response. They are modelled by one datatype of
  Python values. Floats are idealised as reals (no rounding, no NaN).
\<close>

datatype pyval = PNone | PBool bool | PInt int | PFloat real | PStr string
  | PList "pyval list" | PDict "(string \<times> pyval) list"

text \<open>
  The exceptions this layer raises itself: a missing dictionary key, an attribute read
  on \<^verbatim>\<open>None\<close>, and a comparison between a number and a non-number.
\<close>

datatype pyerr = KeyError string | AttributeError string | TypeError

text \<open>Python truthiness, as used by \<^verbatim>\<open>if x:\<close> and \<^verbatim>\<open>x and y\<close>.\<close>

fun truthy :: "pyval \<Rightarrow> bool" where
  "truthy PNone = False"
| "truthy (PBool b) = b"
| "truthy (PInt n) = (n \<noteq> 0)"
| "truthy (PFloat r) = (r \<noteq> 0)"
| "truthy (PStr s) = (s \<noteq> [])"
| "truthy (PList xs) = (xs \<noteq> [])"
| "truthy (PDict kvs) = (kvs \<noteq> [])"

text \<open>
  The numeric reading of a value in an ordering comparison with a number: booleans,
  ints and floats compare as numbers; anything else raises \<^verbatim>\<open>TypeError\<close>.
\<close>

fun num_of :: "pyval \<Rightarrow> real option" where
  "num_of (PBool b) = Some (if b then 1 else 0)"
| "num_of (PInt n) = Some (real_of_int n)"
| "num_of (PFloat r) = Some r"
| "num_of v = None"

section \<open>The controller's data\<close>

text \<open>The fields of \<^verbatim>\<open>Configuration\<close> that the controller reads and writes.\<close>

record configuration =
  C :: pyval
  max_transforms :: pyval
  cutoff_cumulative :: pyval
  cutoff_number :: pyval
  return_first :: pyval
  time_limit :: pyval
  iteration_limit :: pyval
  exclude_target_from_stock :: pyval
  filter_cutoff :: pyval

text \<open>
  The dictionary \<^verbatim>\<open>search_stats\<close>: each of its three keys is present or absent.
  The empty dictionary of \<^verbatim>\<open>__init__\<close> has all three absent.
\<close>

record search_stats =
  returned_first :: "bool option"
  iterations :: "int option"
  time :: "real option"

text \<open>
  The attributes of an \<^verbatim>\<open>AiZynthFinder\<close> object. \<open>'o\<close> is the type of references
  to collaborator objects (molecules, trees, nodes, analyses, route collections,
  scorers); \<open>'w\<close> is the state of everything behind those references (stock, policies,
  the nodes of the tree, the wall clock). The field \<open>target_mol\<close> is the attribute
  \<^verbatim>\<open>_target_mol\<close>, which the property \<^verbatim>\<open>target_mol\<close> returns as it is.
\<close>

record ('w, 'o) finder =
  config :: configuration
  world :: 'w
  tree :: "'o option"
  target_mol :: "'o option"
  search_stats :: search_stats
  routes :: "'o option"
  analysis :: "'o option"

section \<open>Collaborators\<close>

text \<open>
  Stock, policies, molecules, the search tree, the analysis and the scorers are not part
  of this module. Their operations are parameters of the model: a command or a
  constructor maps the world to a new world, a query or an attribute read is a function
  of the world. Every collaborator call is taken to return; an exception raised inside a
  collaborator is outside this layer.
\<close>

record ('w, 'o) context_ops =
  stock_reset_exclusion_list :: "'w \<Rightarrow> 'w"
  stock_contains :: "'o option \<Rightarrow> 'w \<Rightarrow> bool"
  stock_exclude :: "'o option \<Rightarrow> 'w \<Rightarrow> 'w"
  stock_select :: "pyval \<Rightarrow> 'w \<Rightarrow> 'w"
  stock_selection :: "'w \<Rightarrow> pyval"
  expansion_select :: "pyval \<Rightarrow> 'w \<Rightarrow> 'w"
  expansion_selection :: "'w \<Rightarrow> pyval list"
  filter_select :: "pyval \<Rightarrow> 'w \<Rightarrow> 'w"
  filter_deselect :: "'w \<Rightarrow> 'w"
  filter_selection :: "'w \<Rightarrow> pyval"
  Molecule :: "pyval \<Rightarrow> 'w \<Rightarrow> 'o \<times> 'w"
  smiles :: "'o \<Rightarrow> 'w \<Rightarrow> pyval"

record ('w, 'o) tree_ops =
  SearchTree :: "pyval \<Rightarrow> configuration \<Rightarrow> 'w \<Rightarrow> 'o \<times> 'w"
  select_leaf :: "'o \<Rightarrow> 'w \<Rightarrow> 'o \<times> 'w"
  expand :: "'o \<Rightarrow> 'w \<Rightarrow> 'w"
  is_terminal :: "'o \<Rightarrow> 'w \<Rightarrow> bool"
  promising_child :: "'o \<Rightarrow> 'w \<Rightarrow> 'o option \<times> 'w"
  backpropagate :: "'o \<Rightarrow> 'o \<Rightarrow> real \<Rightarrow> 'w \<Rightarrow> 'w"
  state_score :: "'o \<Rightarrow> 'w \<Rightarrow> real"
  state_is_solved :: "'o \<Rightarrow> 'w \<Rightarrow> bool"
  time_time :: "'w \<Rightarrow> real \<times> 'w"

record ('w, 'o) analysis_ops =
  scorers_getitem :: "string \<Rightarrow> 'w \<Rightarrow> 'o"
  scorers_objects :: "'w \<Rightarrow> 'o list"
  TreeAnalysis :: "'o option \<Rightarrow> 'o \<Rightarrow> 'w \<Rightarrow> 'o \<times> 'w"
  from_analysis :: "'o \<Rightarrow> int \<Rightarrow> 'w \<Rightarrow> 'o \<times> 'w"
  routes_dicts :: "'o \<Rightarrow> 'w \<Rightarrow> pyval"
  compute_scores :: "'o \<Rightarrow> 'o list \<Rightarrow> 'w \<Rightarrow> 'w"
  dict_with_scores :: "'o \<Rightarrow> 'w \<Rightarrow> pyval"
  tree_statistics :: "'o \<Rightarrow> 'w \<Rightarrow> (string \<rightharpoonup> pyval)"

section \<open>Target, routes and statistics\<close>

text \<open>\<^verbatim>\<open>__init__\<close>: no tree, no target, empty statistics, no routes, no analysis.\<close>

definition init :: "configuration \<Rightarrow> 'w \<Rightarrow> ('w, 'o) finder" where
  "init cfg w =
     \<lparr>config = cfg, world = w, tree = None, target_mol = None,
      search_stats = \<lparr>returned_first = None, iterations = None, time = None\<rparr>,
      routes = None, analysis = None\<rparr>"

text \<open>The getter \<^verbatim>\<open>target_smiles\<close>: \<^verbatim>\<open>self._target_mol.smiles\<close>.\<close>

definition target_smiles :: "('w, 'o) context_ops \<Rightarrow> ('w, 'o) finder \<Rightarrow> pyerr + pyval" where
  "target_smiles K f =
     (case target_mol f of
        None \<Rightarrow> Inl (AttributeError ''smiles'')
      | Some m \<Rightarrow> Inr (smiles K m (world f)))"

text \<open>The setter of \<^verbatim>\<open>target_mol\<close>.\<close>

definition set_target_mol :: "'o option \<Rightarrow> ('w, 'o) finder \<Rightarrow> ('w, 'o) finder" where
  "set_target_mol mol f = f\<lparr>tree := None, target_mol := mol\<rparr>"

text \<open>The setter of \<^verbatim>\<open>target_smiles\<close>.\<close>

definition set_target_smiles ::
  "('w, 'o) context_ops \<Rightarrow> pyval \<Rightarrow> ('w, 'o) finder \<Rightarrow> ('w, 'o) finder" where
  "set_target_smiles K s f =
     (let (m, w) = Molecule K s (world f)
      in set_target_mol (Some m) (f\<lparr>world := w\<rparr>))"

definition build_routes ::
  "('w, 'o) analysis_ops \<Rightarrow> int \<Rightarrow> string \<Rightarrow> ('w, 'o) finder \<Rightarrow> ('w, 'o) finder" where
  "build_routes A min_nodes scorer f =
     (let (a, w1) = TreeAnalysis A (tree f) (scorers_getitem A scorer (world f)) (world f);
          (r, w2) = from_analysis A a min_nodes w1
      in f\<lparr>world := w2, analysis := Some a, routes := Some r\<rparr>)"

definition extract_statistics ::
  "('w, 'o) context_ops \<Rightarrow> ('w, 'o) analysis_ops \<Rightarrow> ('w, 'o) finder
     \<Rightarrow> pyerr + (string \<rightharpoonup> pyval)" where
  "extract_statistics K A f =
     (case analysis f of
        None \<Rightarrow> Inr Map.empty
      | Some a \<Rightarrow>
         (case target_smiles K f of
            Inl e \<Rightarrow> Inl e
          | Inr s \<Rightarrow>
             (case time (search_stats f) of
                None \<Rightarrow> Inl (KeyError ''time'')
              | Some t \<Rightarrow>
                  Inr ([''target'' \<mapsto> s, ''search_time'' \<mapsto> PFloat t]
                       ++ tree_statistics A a (world f)))))"

section \<open>Preparing the tree\<close>

definition prepare_tree ::
  "('w, 'o) context_ops \<Rightarrow> ('w, 'o) tree_ops \<Rightarrow> ('w, 'o) finder
     \<Rightarrow> (pyerr + unit) \<times> ('w, 'o) finder" where
  "prepare_tree K T f =
     (let w1 = stock_reset_exclusion_list K (world f);
          w2 = (if truthy (exclude_target_from_stock (config f))
                     \<and> stock_contains K (target_mol f) w1
                then stock_exclude K (target_mol f) w1 else w1);
          f1 = f\<lparr>world := w2\<rparr>
      in case target_smiles K f1 of
           Inl e \<Rightarrow> (Inl e, f1)
         | Inr s \<Rightarrow>
            (let (t, w3) = SearchTree T s (config f1) w2
             in (Inr (), f1\<lparr>world := w3, tree := Some t, analysis := None, routes := None\<rparr>)))"

section \<open>The search loop\<close>

text \<open>
  The inner loop of an iteration,
  \<^verbatim>\<open>while not leaf.is_terminal(): child = leaf.promising_child(); if child: ...\<close>.
  It has no bound of its own, so not returning is the value \<open>None\<close>.
\<close>

partial_function (option) descend ::
  "('w, 'o) tree_ops \<Rightarrow> 'o \<Rightarrow> 'w \<Rightarrow> ('o \<times> 'w) option" where
  "descend T leaf w =
     (if is_terminal T leaf w then Some (leaf, w)
      else (case promising_child T leaf w of
              (Some child, w1) \<Rightarrow> descend T child (expand T child w1)
            | (None, w1) \<Rightarrow> descend T leaf w1))"

text \<open>
  The loop condition
  \<^verbatim>\<open>time_past < self.config.time_limit and i <= self.config.iteration_limit\<close>,
  with the short circuit of \<^verbatim>\<open>and\<close>.
\<close>

definition loop_guard :: "real \<Rightarrow> int \<Rightarrow> configuration \<Rightarrow> pyerr + bool" where
  "loop_guard time_past i cfg =
     (case num_of (time_limit cfg) of
        None \<Rightarrow> Inl TypeError
      | Some tlim \<Rightarrow>
          if time_past < tlim
          then (case num_of (iteration_limit cfg) of
                  None \<Rightarrow> Inl TypeError
                | Some ilim \<Rightarrow> Inr (real_of_int i \<le> ilim))
          else Inr False)"

text \<open>The largest counter value that the loop condition admits.\<close>

definition limit_floor :: "configuration \<Rightarrow> int" where
  "limit_floor cfg = (case num_of (iteration_limit cfg) of None \<Rightarrow> 0 | Some ilim \<Rightarrow> \<lfloor>ilim\<rfloor>)"

text \<open>
  The body of the \<^verbatim>\<open>while\<close> loop of \<^verbatim>\<open>tree_search\<close> up to and including
  backpropagation: count the iteration, select a leaf, expand it, descend, backpropagate.
  It returns the final leaf. The progress bar is left out.
\<close>

definition iteration ::
  "('w, 'o) tree_ops \<Rightarrow> ('w, 'o) finder \<Rightarrow> ((pyerr + 'o) \<times> ('w, 'o) finder) option" where
  "iteration T f =
     (case iterations (search_stats f) of
        None \<Rightarrow> Some (Inl (KeyError ''iterations''), f)
      | Some n \<Rightarrow>
         (let f1 = f\<lparr>search_stats := (search_stats f)\<lparr>iterations := Some (n + 1)\<rparr>\<rparr> in
          case tree f1 of
            None \<Rightarrow> Some (Inl (AttributeError ''select_leaf''), f1)
          | Some t \<Rightarrow>
             (let (leaf0, w1) = select_leaf T t (world f1);
                  w2 = expand T leaf0 w1
              in case descend T leaf0 w2 of
                   None \<Rightarrow> None
                 | Some (leaf, w3) \<Rightarrow>
                     Some (Inr leaf,
                           f1\<lparr>world := backpropagate T t leaf (state_score T leaf w3) w3\<rparr>))))"

text \<open>
  The \<^verbatim>\<open>while\<close> loop of \<^verbatim>\<open>tree_search\<close>, from its condition on. The loop state is
  the controller \<open>f\<close> and the locals \<open>time_past\<close> and \<open>i\<close>; the result is the value of
  \<open>time_past\<close> at loop exit, or the exception raised. On the \<^verbatim>\<open>break\<close> the locals are
  left as they are.
\<close>

function search_loop ::
  "('w, 'o) tree_ops \<Rightarrow> real \<Rightarrow> ('w, 'o) finder \<Rightarrow> real \<Rightarrow> int
     \<Rightarrow> ((pyerr + real) \<times> ('w, 'o) finder) option" where
  "search_loop T time0 f time_past i =
     (case loop_guard time_past i (config f) of
        Inl e \<Rightarrow> Some (Inl e, f)
      | Inr False \<Rightarrow> Some (Inr time_past, f)
      | Inr True \<Rightarrow>
         (case iteration T f of
            None \<Rightarrow> None
          | Some (Inl e, f1) \<Rightarrow> Some (Inl e, f1)
          | Some (Inr leaf, f1) \<Rightarrow>
              if truthy (return_first (config f1)) \<and> state_is_solved T leaf (world f1)
              then Some (Inr time_past,
                     f1\<lparr>search_stats := (search_stats f1)\<lparr>returned_first := Some True\<rparr>\<rparr>)
              else (let (now, w) = time_time T (world f1)
                    in search_loop T time0 (f1\<lparr>world := w\<rparr>) (now - time0) (i + 1))))"
  by pat_completeness auto
termination search_loop
proof (relation "measure (\<lambda>(T, time0, f, tp, i). nat (limit_floor (config f) + 1 - i))")
  show "wf (measure (\<lambda>(T, time0, f, tp, i). nat (limit_floor (config f) + 1 - i)))"
    by simp
next
  fix T :: "('w, 'o) tree_ops" and time0 time_past :: real and f f1 :: "('w, 'o) finder"
    and i :: int and b r leaf now w and x :: "(pyerr + 'o) \<times> ('w, 'o) finder" and y
  assume guard: "loop_guard time_past i (config f) = Inr b" "b = True"
    and it: "iteration T f = Some x" "(r, f1) = x" "r = Inr leaf"
  from guard have "i \<le> limit_floor (config f)"
    by (auto simp: loop_guard_def limit_floor_def le_floor_iff split: option.splits if_splits)
  moreover from it have "config f1 = config f"
    by (auto simp: iteration_def Let_def split: option.splits prod.splits)
  ultimately show "((T, time0, f1\<lparr>world := w\<rparr>, now - time0, i + 1), (T, time0, f, time_past, i))
      \<in> measure (\<lambda>(T, time0, f, tp, i). nat (limit_floor (config f) + 1 - i))"
    by simp
qed

declare search_loop.simps [simp del]

text \<open>The first statement of \<^verbatim>\<open>tree_search\<close>: \<^verbatim>\<open>if not self.tree: self.prepare_tree()\<close>.\<close>

definition ensure_tree ::
  "('w, 'o) context_ops \<Rightarrow> ('w, 'o) tree_ops \<Rightarrow> ('w, 'o) finder
     \<Rightarrow> (pyerr + unit) \<times> ('w, 'o) finder" where
  "ensure_tree K T f = (if tree f = None then prepare_tree K T f else (Inr (), f))"

text \<open>
  \<^verbatim>\<open>tree_search\<close>: prepare the tree if there is none, reset the statistics, read the
  clock twice, run the loop, record the value of \<open>time_past\<close> and return it.
\<close>

definition tree_search ::
  "('w, 'o) context_ops \<Rightarrow> ('w, 'o) tree_ops \<Rightarrow> ('w, 'o) finder
     \<Rightarrow> ((pyerr + real) \<times> ('w, 'o) finder) option" where
  "tree_search K T f =
     (case ensure_tree K T f of
        (Inl e, f1) \<Rightarrow> Some (Inl e, f1)
      | (Inr u, f1) \<Rightarrow>
         (let f2 = f1\<lparr>search_stats :=
                       \<lparr>returned_first = Some False, iterations = Some 0, time = None\<rparr>\<rparr>;
              (time0, w1) = time_time T (world f2);
              (t1, w2) = time_time T w1
          in case search_loop T time0 (f2\<lparr>world := w2\<rparr>) (t1 - time0) 1 of
               None \<Rightarrow> None
             | Some (Inl e, f3) \<Rightarrow> Some (Inl e, f3)
             | Some (Inr time_past, f3) \<Rightarrow>
                 Some (Inr time_past,
                       f3\<lparr>search_stats := (search_stats f3)\<lparr>time := Some time_past\<rparr>\<rparr>)))"

section \<open>Settings and the JSON interface\<close>

text \<open>
  \<^verbatim>\<open>_get_settings\<close>: the current settings as a dictionary. The expansion policy's
  selection is a list; its single element goes under the key \<^verbatim>\<open>policy\<close>, any other
  list goes whole under the key \<^verbatim>\<open>policies\<close>.
\<close>

definition get_settings ::
  "('w, 'o) context_ops \<Rightarrow> ('w, 'o) finder \<Rightarrow> pyerr + (string \<rightharpoonup> pyval)" where
  "get_settings K f =
     (let sel = expansion_selection K (world f);
          (policy_key, policy_value) =
             (if length sel = 1 then (''policy'', sel ! 0) else (''policies'', PList sel))
      in case target_smiles K f of
           Inl e \<Rightarrow> Inl e
         | Inr s \<Rightarrow>
            (let dict = [''stocks'' \<mapsto> stock_selection K (world f),
                         policy_key \<mapsto> policy_value,
                         ''C'' \<mapsto> C (config f),
                         ''max_transforms'' \<mapsto> max_transforms (config f),
                         ''cutoff_cumulative'' \<mapsto> cutoff_cumulative (config f),
                         ''cutoff_number'' \<mapsto> cutoff_number (config f),
                         ''smiles'' \<mapsto> s,
                         ''return_first'' \<mapsto> return_first (config f),
                         ''time_limit'' \<mapsto> time_limit (config f),
                         ''iteration_limit'' \<mapsto> iteration_limit (config f),
                         ''exclude_target_from_stock'' \<mapsto> exclude_target_from_stock (config f),
                         ''filter_cutoff'' \<mapsto> filter_cutoff (config f)]
             in Inr (if truthy (filter_selection K (world f))
                     then dict(''filter'' \<mapsto> filter_selection K (world f))
                     else dict)))"

text \<open>\<^verbatim>\<open>params.get(key, default)\<close>.\<close>

definition dict_get :: "(string \<rightharpoonup> pyval) \<Rightarrow> string \<Rightarrow> pyval \<Rightarrow> pyval" where
  "dict_get params key dflt = (case params key of None \<Rightarrow> dflt | Some v \<Rightarrow> v)"

text \<open>
  A statement \<^verbatim>\<open>target = params[key]\<close>: \<^verbatim>\<open>KeyError\<close> when the key is absent,
  otherwise the value is stored by \<open>store\<close>.
\<close>

definition assign ::
  "(string \<rightharpoonup> pyval) \<Rightarrow> string \<Rightarrow> (pyval \<Rightarrow> 's \<Rightarrow> 's) \<Rightarrow> 's \<Rightarrow> (pyerr + unit) \<times> 's" where
  "assign params key store f =
     (case params key of
        None \<Rightarrow> (Inl (KeyError key), f)
      | Some v \<Rightarrow> (Inr (), store v f))"

text \<open>Statements in sequence: the first exception ends the run, with the state it left.\<close>

fun run_steps :: "('s \<Rightarrow> (pyerr + unit) \<times> 's) list \<Rightarrow> 's \<Rightarrow> (pyerr + unit) \<times> 's" where
  "run_steps [] f = (Inr (), f)"
| "run_steps (step # steps) f =
     (case step f of
        (Inl e, f1) \<Rightarrow> (Inl e, f1)
      | (Inr u, f1) \<Rightarrow> run_steps steps f1)"

text \<open>
  The first sixteen lines of \<^verbatim>\<open>run_from_json\<close>, which copy the request into the
  collaborators and the configuration, in the order of the source.
\<close>

definition read_settings ::
  "('w, 'o) context_ops \<Rightarrow> (string \<rightharpoonup> pyval) \<Rightarrow> ('w, 'o) finder
     \<Rightarrow> (pyerr + unit) \<times> ('w, 'o) finder" where
  "read_settings K params =
     run_steps
       [assign params ''stocks'' (\<lambda>v f. f\<lparr>world := stock_select K v (world f)\<rparr>),
        (\<lambda>f. (Inr (), f\<lparr>world := expansion_select K
                   (dict_get params ''policy'' (dict_get params ''policies'' (PStr [])))
                   (world f)\<rparr>)),
        (\<lambda>f. (Inr (), f\<lparr>world := (case params ''filter'' of
                                        Some v \<Rightarrow> filter_select K v (world f)
                                      | None \<Rightarrow> filter_deselect K (world f))\<rparr>)),
        assign params ''C'' (\<lambda>v f. f\<lparr>config := (config f)\<lparr>C := v\<rparr>\<rparr>),
        assign params ''max_transforms'' (\<lambda>v f. f\<lparr>config := (config f)\<lparr>max_transforms := v\<rparr>\<rparr>),
        assign params ''cutoff_cumulative'' (\<lambda>v f. f\<lparr>config := (config f)\<lparr>cutoff_cumulative := v\<rparr>\<rparr>),
        assign params ''cutoff_number'' (\<lambda>v f. f\<lparr>config := (config f)\<lparr>cutoff_number := v\<rparr>\<rparr>),
        assign params ''smiles'' (set_target_smiles K),
        assign params ''return_first'' (\<lambda>v f. f\<lparr>config := (config f)\<lparr>return_first := v\<rparr>\<rparr>),
        assign params ''time_limit'' (\<lambda>v f. f\<lparr>config := (config f)\<lparr>time_limit := v\<rparr>\<rparr>),
        assign params ''iteration_limit'' (\<lambda>v f. f\<lparr>config := (config f)\<lparr>iteration_limit := v\<rparr>\<rparr>),
        assign params ''exclude_target_from_stock''
          (\<lambda>v f. f\<lparr>config := (config f)\<lparr>exclude_target_from_stock := v\<rparr>\<rparr>),
        assign params ''filter_cutoff'' (\<lambda>v f. f\<lparr>config := (config f)\<lparr>filter_cutoff := v\<rparr>\<rparr>)]"


text \<open>The response of \<^verbatim>\<open>run_from_json\<close>, a dictionary with the keys \<^verbatim>\<open>request\<close> and \<^verbatim>\<open>trees\<close>.\<close>

record response =
  request :: "string \<rightharpoonup> pyval"
  trees :: pyval

definition run_from_json ::
  "('w, 'o) context_ops \<Rightarrow> ('w, 'o) tree_ops \<Rightarrow> ('w, 'o) analysis_ops
     \<Rightarrow> (string \<rightharpoonup> pyval) \<Rightarrow> ('w, 'o) finder
     \<Rightarrow> ((pyerr + response) \<times> ('w, 'o) finder) option" where
  "run_from_json K T A params f =
     (case read_settings K params f of
        (Inl e, f1) \<Rightarrow> Some (Inl e, f1)
      | (Inr u, f1) \<Rightarrow>
         (case prepare_tree K T f1 of
            (Inl e, f2) \<Rightarrow> Some (Inl e, f2)
          | (Inr u, f2) \<Rightarrow>
             (case tree_search K T f2 of
                None \<Rightarrow> None
              | Some (Inl e, f3) \<Rightarrow> Some (Inl e, f3)
              | Some (Inr time_past, f3) \<Rightarrow>
                 (let f4 = build_routes A 5 ''state score'' f3
                  in case routes f4 of
                       None \<Rightarrow> Some (Inl (AttributeError ''dicts''), f4)
                     | Some r \<Rightarrow>
                        if \<not> truthy (dict_get params ''score_trees'' (PBool False))
                        then (case get_settings K f4 of
                                Inl e \<Rightarrow> Some (Inl e, f4)
                              | Inr req \<Rightarrow>
                                  Some (Inr \<lparr>request = req, trees = routes_dicts A r (world f4)\<rparr>, f4))
                        else (let f5 = f4\<lparr>world := compute_scores A r
                                                      (scorers_objects A (world f4)) (world f4)\<rparr>
                              in case get_settings K f5 of
                                   Inl e \<Rightarrow> Some (Inl e, f5)
                                 | Inr req \<Rightarrow>
                                     Some (Inr \<lparr>request = req,
                                                trees = dict_with_scores A r (world f5)\<rparr>, f5))))))"

section \<open>Controller states\<close>

text \<open>
  The states a controller can be in: the state \<^verbatim>\<open>__init__\<close> leaves, and every state
  that a method of the class, an assignment to its configuration or a change inside a
  collaborator leads to from such a state.
\<close>

inductive reachable ::
  "('w, 'o) context_ops \<Rightarrow> ('w, 'o) tree_ops \<Rightarrow> ('w, 'o) analysis_ops \<Rightarrow> ('w, 'o) finder \<Rightarrow> bool"
  for K T A where
  by_init: "reachable K T A (init cfg w)"
| by_config: "reachable K T A f \<Longrightarrow> reachable K T A (f\<lparr>config := cfg\<rparr>)"
| by_world: "reachable K T A f \<Longrightarrow> reachable K T A (f\<lparr>world := w\<rparr>)"
| by_set_target_mol: "reachable K T A f \<Longrightarrow> reachable K T A (set_target_mol m f)"
| by_set_target_smiles: "reachable K T A f \<Longrightarrow> reachable K T A (set_target_smiles K s f)"
| by_build_routes: "reachable K T A f \<Longrightarrow> reachable K T A (build_routes A n scorer f)"
| by_prepare_tree: "reachable K T A f \<Longrightarrow> prepare_tree K T f = (r, f') \<Longrightarrow> reachable K T A f'"
| by_tree_search: "reachable K T A f \<Longrightarrow> tree_search K T f = Some (r', f') \<Longrightarrow> reachable K T A f'"
| by_run_from_json:
    "reachable K T A f \<Longrightarrow> run_from_json K T A params f = Some (r'', f') \<Longrightarrow> reachable K T A f'"

text \<open>A tree is there only when a target is.\<close>

definition tree_has_target :: "('w, 'o) finder \<Rightarrow> bool" where
  "tree_has_target f = (tree f = None \<or> target_mol f \<noteq> None)"


text \<open>
  A run of \<open>k\<close> iterations of the loop of \<^verbatim>\<open>tree_search\<close>, none of which ends in a
  solved leaf, from one loop state (the controller, \<open>time_past\<close> and \<open>i\<close>) to another.
  Each iteration is admitted by the loop condition, is counted, selects a leaf, expands
  it, descends to a final leaf, backpropagates, finds the final leaf not solved, and reads
  the clock.
\<close>

inductive unsolved_iterations ::
  "('w, 'o) tree_ops \<Rightarrow> real \<Rightarrow> nat \<Rightarrow> ('w, 'o) finder \<times> real \<times> int
     \<Rightarrow> ('w, 'o) finder \<times> real \<times> int \<Rightarrow> bool"
  for T time0 where
  no_iteration: "unsolved_iterations T time0 0 s s"
| one_more:
    "loop_guard time_past i (config f) = Inr True \<Longrightarrow>
     iterations (search_stats f) = Some n \<Longrightarrow>
     tree f = Some t \<Longrightarrow>
     select_leaf T t (world f) = (leaf0, w1) \<Longrightarrow>
     descend T leaf0 (expand T leaf0 w1) = Some (leaf, w3) \<Longrightarrow>
     \<not> state_is_solved T leaf (backpropagate T t leaf (state_score T leaf w3) w3) \<Longrightarrow>
     time_time T (backpropagate T t leaf (state_score T leaf w3) w3) = (now, w5) \<Longrightarrow>
     unsolved_iterations T time0 k
       (f\<lparr>search_stats := (search_stats f)\<lparr>iterations := Some (n + 1)\<rparr>, world := w5\<rparr>,
        now - time0, i + 1) s \<Longrightarrow>
     unsolved_iterations T time0 (Suc k) (f, time_past, i) s"

section \<open>Test doubles\<close>

text \<open>
  Concrete collaborators, used to run the controller on explicit inputs. Their classes are
  not part of this module; the doubles follow the interfaces that the controller calls
  and that the specification lists for them.
\<close>

datatype toy_obj = Mol pyval | Node nat | Tree | Analysis | Routes | Scorer string

record toy_world =
  clock :: nat
  stock_sel :: pyval
  policy_sel :: "pyval list"
  filter_sel :: pyval
  stocked :: "toy_obj list"
  excluded :: "toy_obj list"
  dead :: "nat list"

text \<open>
  Modelled from the spec: the stock, the expansion policy, the filter policy and the
  compound representation (section 6), whose classes are missing here. \<^verbatim>\<open>select\<close>
  makes its argument the selection (a single policy name becomes a selection of one),
  \<^verbatim>\<open>deselect\<close> leaves none, \<^verbatim>\<open>selection\<close> returns it; a compound is in stock when it
  is stocked and not excluded; a molecule is built from its SMILES and gives it back.
\<close>

definition toy_context :: "(toy_world, toy_obj) context_ops" where
  "toy_context =
     \<lparr>stock_reset_exclusion_list = (\<lambda>w. w\<lparr>excluded := []\<rparr>),
      stock_contains = (\<lambda>m w. case m of None \<Rightarrow> False
                                 | Some x \<Rightarrow> x \<in> set (stocked w) \<and> x \<notin> set (excluded w)),
      stock_exclude = (\<lambda>m w. case m of None \<Rightarrow> w | Some x \<Rightarrow> w\<lparr>excluded := x # excluded w\<rparr>),
      stock_select = (\<lambda>v w. w\<lparr>stock_sel := v\<rparr>),
      stock_selection = stock_sel,
      expansion_select = (\<lambda>v w. w\<lparr>policy_sel := (case v of PList xs \<Rightarrow> xs | _ \<Rightarrow> [v])\<rparr>),
      expansion_selection = policy_sel,
      filter_select = (\<lambda>v w. w\<lparr>filter_sel := v\<rparr>),
      filter_deselect = (\<lambda>w. w\<lparr>filter_sel := PNone\<rparr>),
      filter_selection = filter_sel,
      Molecule = (\<lambda>s w. (Mol s, w)),
      smiles = (\<lambda>m w. case m of Mol s \<Rightarrow> s | _ \<Rightarrow> PNone)\<rparr>"

text \<open>
  Modelled from the spec: the tree (section 6), whose class is missing here, with leaf
  selection, expansion, terminal test, promising-child lookup and backpropagation, and
  the wall clock. It is a chain \<open>Node 0, Node 1, ...\<close>: nodes at depth 2 or more are
  terminal, a node above depth \<open>width\<close> has the next node as its promising child, and a
  node without one is marked as not expandable, which makes it terminal. Each expansion
  takes one second of the clock. Every final leaf is solved when \<open>solved\<close> is set.
\<close>

definition toy_tree :: "bool \<Rightarrow> nat \<Rightarrow> (toy_world, toy_obj) tree_ops" where
  "toy_tree solved width =
     \<lparr>SearchTree = (\<lambda>s cfg w. (Tree, w)),
      select_leaf = (\<lambda>t w. (Node 0, w)),
      expand = (\<lambda>n w. w\<lparr>clock := clock w + 1\<rparr>),
      is_terminal = (\<lambda>n w. case n of Node d \<Rightarrow> 2 \<le> d \<or> d \<in> set (dead w) | _ \<Rightarrow> True),
      promising_child = (\<lambda>n w. case n of
                           Node d \<Rightarrow> if d < width then (Some (Node (d + 1)), w)
                                     else (None, w\<lparr>dead := d # dead w\<rparr>)
                         | _ \<Rightarrow> (None, w)),
      backpropagate = (\<lambda>t n sc w. w),
      state_score = (\<lambda>n w. 1),
      state_is_solved = (\<lambda>n w. solved),
      time_time = (\<lambda>w. (real (clock w), w))\<rparr>"

text \<open>A tree whose root is not terminal and never gets a promising child.\<close>

definition stuck_tree :: "(toy_world, toy_obj) tree_ops" where
  "stuck_tree =
     (toy_tree False 0)\<lparr>is_terminal := (\<lambda>n w. False), promising_child := (\<lambda>n w. (None, w))\<rparr>"

text \<open>The chain with a clock that runs backwards: each reading is below the one before.\<close>

definition backward_clock_tree :: "(toy_world, toy_obj) tree_ops" where
  "backward_clock_tree =
     (toy_tree False 2)\<lparr>time_time := (\<lambda>w. (5 - real (clock w), w\<lparr>clock := clock w + 1\<rparr>))\<rparr>"

text \<open>The chain on which a final leaf is solved once the clock has reached 4 seconds.\<close>

definition late_tree :: "(toy_world, toy_obj) tree_ops" where
  "late_tree = (toy_tree False 2)\<lparr>state_is_solved := (\<lambda>n w. 4 \<le> clock w)\<rparr>"

text \<open>
  Modelled from the spec: the scorer registry, the analysis and the route collection
  (section 6), whose classes are missing here. There is one scorer and no route.
\<close>

definition toy_analysis :: "(toy_world, toy_obj) analysis_ops" where
  "toy_analysis =
     \<lparr>scorers_getitem = (\<lambda>name w. Scorer name),
      scorers_objects = (\<lambda>w. [Scorer ''state score'']),
      TreeAnalysis = (\<lambda>t sc w. (Analysis, w)),
      from_analysis = (\<lambda>a n w. (Routes, w)),
      routes_dicts = (\<lambda>r w. PList []),
      compute_scores = (\<lambda>r scs w. w),
      dict_with_scores = (\<lambda>r w. PList []),
      tree_statistics = (\<lambda>a w. Map.empty)\<rparr>"

definition toy_world0 :: toy_world where
  "toy_world0 = \<lparr>clock = 0, stock_sel = PList [], policy_sel = [], filter_sel = PNone,
                  stocked = [], excluded = [], dead = []\<rparr>"

definition toy_config :: "bool \<Rightarrow> int \<Rightarrow> int \<Rightarrow> configuration" where
  "toy_config rf tlimit ilimit =
     \<lparr>C = PFloat 1.4, max_transforms = PInt 6, cutoff_cumulative = PFloat 0.995,
      cutoff_number = PInt 50, return_first = PBool rf, time_limit = PInt tlimit,
      iteration_limit = PInt ilimit, exclude_target_from_stock = PBool True,
      filter_cutoff = PFloat 0.05\<rparr>"

text \<open>A controller fresh from \<^verbatim>\<open>__init__\<close> on which the target has been set.\<close>

definition toy_finder :: "bool \<Rightarrow> int \<Rightarrow> int \<Rightarrow> (toy_world, toy_obj) finder" where
  "toy_finder rf tlimit ilimit =
     set_target_mol (Some (Mol (PStr ''CCO''))) (init (toy_config rf tlimit ilimit) toy_world0)"

text \<open>A request with every key that \<^verbatim>\<open>run_from_json\<close> reads, and a single policy.\<close>

definition toy_request :: "string \<rightharpoonup> pyval" where
  "toy_request =
     [''stocks'' \<mapsto> PList [PStr ''zinc''],
      ''policy'' \<mapsto> PStr ''uspto'',
      ''C'' \<mapsto> PFloat 1.4,
      ''max_transforms'' \<mapsto> PInt 6,
      ''cutoff_cumulative'' \<mapsto> PFloat 0.995,
      ''cutoff_number'' \<mapsto> PInt 50,
      ''smiles'' \<mapsto> PStr ''CCO'',
      ''return_first'' \<mapsto> PBool True,
      ''time_limit'' \<mapsto> PInt 100,
      ''iteration_limit'' \<mapsto> PInt 100,
      ''exclude_target_from_stock'' \<mapsto> PBool True,
      ''filter_cutoff'' \<mapsto> PFloat 0.05]"

section \<open>Facts about the loop\<close>

lemma descend_terminal:
  "descend T leaf w = Some r \<Longrightarrow> is_terminal T (fst r) (snd r)"
  apply (erule descend.raw_induct[rotated, where P = "\<lambda>T leaf w r. is_terminal T (fst r) (snd r)"])
  apply (auto split: if_splits prod.splits option.splits)
  done

lemma iteration_frame:
  "iteration T f = Some (r, f1) \<Longrightarrow>
     config f1 = config f \<and> tree f1 = tree f \<and> target_mol f1 = target_mol f
       \<and> routes f1 = routes f \<and> analysis f1 = analysis f"
  by (auto simp: iteration_def Let_def split: option.splits prod.splits)

lemma iteration_count:
  "iteration T f = Some (Inr leaf, f1) \<Longrightarrow>
     \<exists>n. iterations (search_stats f) = Some n \<and> iterations (search_stats f1) = Some (n + 1)
       \<and> returned_first (search_stats f1) = returned_first (search_stats f)
       \<and> time (search_stats f1) = time (search_stats f)"
  by (auto simp: iteration_def Let_def split: option.splits prod.splits)

lemma guard_counter: "loop_guard time_past i cfg = Inr True \<Longrightarrow> i \<le> limit_floor cfg"
  by (auto simp: loop_guard_def limit_floor_def le_floor_iff split: option.splits if_splits)

lemma search_loop_error:
  "loop_guard time_past i (config f) = Inl e \<Longrightarrow>
     search_loop T time0 f time_past i = Some (Inl e, f)"
  by (simp add: search_loop.simps[of T time0 f time_past i])

lemma search_loop_stop:
  "loop_guard time_past i (config f) = Inr False \<Longrightarrow>
     search_loop T time0 f time_past i = Some (Inr time_past, f)"
  by (simp add: search_loop.simps[of T time0 f time_past i])

lemma search_loop_diverge:
  "loop_guard time_past i (config f) = Inr True \<Longrightarrow> iteration T f = None \<Longrightarrow>
     search_loop T time0 f time_past i = None"
  by (simp add: search_loop.simps[of T time0 f time_past i])

lemma search_loop_raise:
  "loop_guard time_past i (config f) = Inr True \<Longrightarrow> iteration T f = Some (Inl e, f1) \<Longrightarrow>
     search_loop T time0 f time_past i = Some (Inl e, f1)"
  by (simp add: search_loop.simps[of T time0 f time_past i])

lemma search_loop_break:
  "loop_guard time_past i (config f) = Inr True \<Longrightarrow> iteration T f = Some (Inr leaf, f1) \<Longrightarrow>
   truthy (return_first (config f1)) \<Longrightarrow> state_is_solved T leaf (world f1) \<Longrightarrow>
     search_loop T time0 f time_past i =
       Some (Inr time_past, f1\<lparr>search_stats := (search_stats f1)\<lparr>returned_first := Some True\<rparr>\<rparr>)"
  by (simp add: search_loop.simps[of T time0 f time_past i])

lemma search_loop_continue:
  "loop_guard time_past i (config f) = Inr True \<Longrightarrow> iteration T f = Some (Inr leaf, f1) \<Longrightarrow>
   \<not> (truthy (return_first (config f1)) \<and> state_is_solved T leaf (world f1)) \<Longrightarrow>
   time_time T (world f1) = (now, w) \<Longrightarrow>
     search_loop T time0 f time_past i =
       search_loop T time0 (f1\<lparr>world := w\<rparr>) (now - time0) (i + 1)"
  by (auto simp add: search_loop.simps[of T time0 f time_past i])

text \<open>An induction rule for the loop that follows its exits.\<close>

lemma search_loop_cases_induct:
  assumes err: "\<And>T time0 f time_past i e.
                loop_guard time_past i (config f) = Inl e \<Longrightarrow> P T time0 f time_past i"
    and stop: "\<And>T time0 f time_past i.
                loop_guard time_past i (config f) = Inr False \<Longrightarrow> P T time0 f time_past i"
    and div: "\<And>T time0 f time_past i. loop_guard time_past i (config f) = Inr True \<Longrightarrow>
                iteration T f = None \<Longrightarrow> P T time0 f time_past i"
    and raise: "\<And>T time0 f time_past i e f1. loop_guard time_past i (config f) = Inr True \<Longrightarrow>
                iteration T f = Some (Inl e, f1) \<Longrightarrow> P T time0 f time_past i"
    and brk: "\<And>T time0 f time_past i leaf f1. loop_guard time_past i (config f) = Inr True \<Longrightarrow>
                iteration T f = Some (Inr leaf, f1) \<Longrightarrow>
                truthy (return_first (config f1)) \<Longrightarrow> state_is_solved T leaf (world f1) \<Longrightarrow>
                P T time0 f time_past i"
    and cont: "\<And>T time0 f time_past i leaf f1 now w.
                loop_guard time_past i (config f) = Inr True \<Longrightarrow>
                iteration T f = Some (Inr leaf, f1) \<Longrightarrow>
                \<not> (truthy (return_first (config f1)) \<and> state_is_solved T leaf (world f1)) \<Longrightarrow>
                time_time T (world f1) = (now, w) \<Longrightarrow>
                P T time0 (f1\<lparr>world := w\<rparr>) (now - time0) (i + 1) \<Longrightarrow> P T time0 f time_past i"
  shows "P T time0 f time_past i"
proof (induction T time0 f time_past i rule: search_loop.induct)
  case (1 T time0 f time_past i)
  show ?case
  proof (cases "loop_guard time_past i (config f)")
    case (Inl e)
    then show ?thesis by (rule err)
  next
    case (Inr b)
    show ?thesis
    proof (cases b)
      case False
      with Inr show ?thesis by (simp add: stop)
    next
      case True
      with Inr have g: "loop_guard time_past i (config f) = Inr True" by simp
      show ?thesis
      proof (cases "iteration T f")
        case None
        with g show ?thesis by (rule div)
      next
        case (Some x)
        obtain q f1 where x: "x = (q, f1)" by (cases x)
        show ?thesis
        proof (cases q)
          case (Inl e)
          with g Some x show ?thesis by (auto intro: raise)
        next
          case (Inr leaf)
          with Some x have it: "iteration T f = Some (Inr leaf, f1)" by simp
          show ?thesis
          proof (cases "truthy (return_first (config f1)) \<and> state_is_solved T leaf (world f1)")
            case True
            with g it show ?thesis by (auto intro: brk)
          next
            case False
            obtain now w where tt: "time_time T (world f1) = (now, w)"
              by (cases "time_time T (world f1)")
            have "P T time0 (f1\<lparr>world := w\<rparr>) (now - time0) (i + 1)"
              using "1.IH"[OF \<open>loop_guard time_past i (config f) = Inr b\<close> eqTrueI[OF True]
                  Some x[symmetric] Inr False refl tt[symmetric]] .
            with g it False tt show ?thesis by (rule cont)
          qed
        qed
      qed
    qed
  qed
qed

text \<open>The loop changes the world and the statistics only.\<close>

lemma search_loop_frame:
  "search_loop T time0 f time_past i = Some (r, f') \<Longrightarrow>
     config f' = config f \<and> tree f' = tree f \<and> target_mol f' = target_mol f
       \<and> routes f' = routes f \<and> analysis f' = analysis f"
proof (induction T time0 f time_past i arbitrary: r f' rule: search_loop_cases_induct)
  case (1 T time0 f time_past i e)
  then show ?case by (simp add: search_loop_error)
next
  case (2 T time0 f time_past i)
  then show ?case by (simp add: search_loop_stop)
next
  case (3 T time0 f time_past i)
  then show ?case by (simp add: search_loop_diverge)
next
  case (4 T time0 f time_past i e f1)
  then show ?case using iteration_frame[of T f "Inl e" f1] by (simp add: search_loop_raise)
next
  case (5 T time0 f time_past i leaf f1)
  then show ?case using iteration_frame[of T f "Inr leaf" f1] by (auto simp add: search_loop_break)
next
  case (6 T time0 f time_past i leaf f1 now w)
  from "6.prems" have "search_loop T time0 (f1\<lparr>world := w\<rparr>) (now - time0) (i + 1) = Some (r, f')"
    using search_loop_continue[OF "6.hyps"(1-4)] by simp
  from "6.IH"[OF this] show ?case using iteration_frame[OF "6.hyps"(2)] by simp
qed

text \<open>The counter \<open>i\<close> runs one ahead of the recorded number of iterations.\<close>

lemma search_loop_count:
  "search_loop T time0 f time_past i = Some (r, f') \<Longrightarrow>
   iterations (search_stats f) = Some (i - 1) \<Longrightarrow>
     \<exists>m. iterations (search_stats f') = Some m \<and> i - 1 \<le> m
        \<and> m \<le> max (i - 1) (limit_floor (config f))"
proof (induction T time0 f time_past i arbitrary: r f' rule: search_loop_cases_induct)
  case (1 T time0 f time_past i e)
  then show ?case by (simp add: search_loop_error)
next
  case (2 T time0 f time_past i)
  then show ?case by (simp add: search_loop_stop)
next
  case (3 T time0 f time_past i)
  then show ?case by (simp add: search_loop_diverge)
next
  case (4 T time0 f time_past i e f1)
  have "i \<le> limit_floor (config f)"
    using "4.hyps"(1) by (rule guard_counter)
  moreover have "f' = f1" "r = Inl e"
    using 4 by (simp_all add: search_loop_raise)
  moreover have "iterations (search_stats f1) = Some (i - 1) \<or> iterations (search_stats f1) = Some i"
    using "4.hyps"(2) "4.prems"(2)
    by (auto simp: iteration_def Let_def split: option.splits prod.splits)
  ultimately show ?case by auto
next
  case (5 T time0 f time_past i leaf f1)
  have "i \<le> limit_floor (config f)"
    using "5.hyps"(1) by (rule guard_counter)
  moreover have "iterations (search_stats f') = Some i"
    using 5 iteration_count[OF "5.hyps"(2)] by (auto simp add: search_loop_break)
  ultimately show ?case by auto
next
  case (6 T time0 f time_past i leaf f1 now w)
  have le: "i \<le> limit_floor (config f)"
    using "6.hyps"(1) by (rule guard_counter)
  from "6.prems" have rec: "search_loop T time0 (f1\<lparr>world := w\<rparr>) (now - time0) (i + 1) = Some (r, f')"
    using search_loop_continue[OF "6.hyps"(1-4)] by simp
  have cnt: "iterations (search_stats (f1\<lparr>world := w\<rparr>)) = Some (i + 1 - 1)"
    using iteration_count[OF "6.hyps"(2)] "6.prems"(2) by auto
  have cfg: "config (f1\<lparr>world := w\<rparr>) = config f"
    using iteration_frame[OF "6.hyps"(2)] by simp
  from "6.IH"[OF rec cnt] cfg le show ?case by auto
qed

lemma prepare_tree_frame:
  "prepare_tree K T f = (r, f') \<Longrightarrow>
     config f' = config f \<and> target_mol f' = target_mol f \<and> search_stats f' = search_stats f"
  by (auto simp: prepare_tree_def Let_def split: sum.splits prod.splits)

lemma ensure_tree_frame:
  "ensure_tree K T f = (r, f') \<Longrightarrow>
     config f' = config f \<and> target_mol f' = target_mol f \<and> search_stats f' = search_stats f"
  by (auto simp: ensure_tree_def dest: prepare_tree_frame split: if_splits)

lemma tree_search_frame:
  assumes "tree_search K T f = Some (r, f')" and "ensure_tree K T f = (q, f1)"
  shows "config f' = config f1 \<and> tree f' = tree f1 \<and> target_mol f' = target_mol f1
           \<and> routes f' = routes f1 \<and> analysis f' = analysis f1"
proof (cases q)
  case (Inl e)
  with assms show ?thesis by (simp add: tree_search_def)
next
  case (Inr u)
  define f2 where "f2 = f1\<lparr>search_stats :=
                     \<lparr>returned_first = Some False, iterations = Some 0, time = None\<rparr>\<rparr>"
  obtain time0 w1 where t0: "time_time T (world f2) = (time0, w1)" by (cases "time_time T (world f2)")
  obtain t1 w2 where tt: "time_time T w1 = (t1, w2)" by (cases "time_time T w1")
  from assms Inr t0 tt obtain q3 f3 where
    loop: "search_loop T time0 (f2\<lparr>world := w2\<rparr>) (t1 - time0) 1 = Some (q3, f3)"
    and f': "config f' = config f3" "tree f' = tree f3" "target_mol f' = target_mol f3"
            "routes f' = routes f3" "analysis f' = analysis f3"
    by (auto simp: tree_search_def f2_def Let_def split: option.splits sum.splits prod.splits)
  from search_loop_frame[OF loop] f' show ?thesis by (simp add: f2_def)
qed

text \<open>A run of unsolved iterations is a run of the loop.\<close>

lemma iteration_steps:
  "iterations (search_stats f) = Some n \<Longrightarrow> tree f = Some t \<Longrightarrow>
   select_leaf T t (world f) = (leaf0, w1) \<Longrightarrow>
   descend T leaf0 (expand T leaf0 w1) = Some (leaf, w3) \<Longrightarrow>
     iteration T f =
       Some (Inr leaf,
             f\<lparr>search_stats := (search_stats f)\<lparr>iterations := Some (n + 1)\<rparr>,
               world := backpropagate T t leaf (state_score T leaf w3) w3\<rparr>)"
  by (simp add: iteration_def)

lemma unsolved_iterations_loop:
  "unsolved_iterations T time0 k s s' \<Longrightarrow>
     search_loop T time0 (fst s) (fst (snd s)) (snd (snd s))
       = search_loop T time0 (fst s') (fst (snd s')) (snd (snd s'))
     \<and> config (fst s') = config (fst s) \<and> tree (fst s') = tree (fst s)
     \<and> snd (snd s') = snd (snd s) + int k
     \<and> (\<forall>m. iterations (search_stats (fst s)) = Some m \<longrightarrow>
              iterations (search_stats (fst s')) = Some (m + int k))
     \<and> returned_first (search_stats (fst s')) = returned_first (search_stats (fst s))
     \<and> time (search_stats (fst s')) = time (search_stats (fst s))"
proof (induction rule: unsolved_iterations.induct)
  case (no_iteration s)
  then show ?case by simp
next
  case (one_more time_past i f n t leaf0 w1 leaf w3 now w5 k s)
  let ?w4 = "backpropagate T t leaf (state_score T leaf w3) w3"
  let ?f1 = "f\<lparr>search_stats := (search_stats f)\<lparr>iterations := Some (n + 1)\<rparr>, world := ?w4\<rparr>"
  have it: "iteration T f = Some (Inr leaf, ?f1)"
    using one_more.hyps(2-5) by (rule iteration_steps)
  have ns: "\<not> (truthy (return_first (config ?f1)) \<and> state_is_solved T leaf (world ?f1))"
    using one_more.hyps(6) by simp
  have tt: "time_time T (world ?f1) = (now, w5)"
    using one_more.hyps(7) by simp
  from search_loop_continue[OF one_more.hyps(1) it ns tt, of time0]
  have "search_loop T time0 f time_past i =
      search_loop T time0
        (f\<lparr>search_stats := (search_stats f)\<lparr>iterations := Some (n + 1)\<rparr>, world := w5\<rparr>)
        (now - time0) (i + 1)"
    by simp
  with one_more.IH one_more.hyps(2) show ?case by auto
qed

section \<open>Facts about statements in sequence\<close>

lemma run_steps_invariant:
  "(\<And>step g r g'. step \<in> set steps \<Longrightarrow> P g \<Longrightarrow> step g = (r, g') \<Longrightarrow> P g') \<Longrightarrow>
     P f \<Longrightarrow> run_steps steps f = (r, f') \<Longrightarrow> P f'"
proof (induction steps arbitrary: f)
  case Nil
  then show ?case by simp
next
  case (Cons step steps)
  obtain q f1 where s: "step f = (q, f1)" by (cases "step f")
  have p1: "P f1" using Cons.prems(1)[of step f q f1] Cons.prems(2) s by simp
  show ?case
  proof (cases q)
    case (Inl e)
    with Cons.prems(3) s p1 show ?thesis by simp
  next
    case (Inr u)
    with Cons.prems(3) s have "run_steps steps f1 = (r, f')" by simp
    with Cons.IH[of f1] Cons.prems(1) p1 show ?thesis by auto
  qed
qed

lemma assign_invariant:
  "(\<And>v g. P g \<Longrightarrow> P (store v g)) \<Longrightarrow> P f \<Longrightarrow> assign params key store f = (r, f') \<Longrightarrow> P f'"
  by (auto simp: assign_def split: option.splits)

section \<open>Facts about the controller states\<close>

lemma tht_set_target_mol: "tree_has_target (set_target_mol m f)"
  by (simp add: tree_has_target_def set_target_mol_def)

lemma tht_set_target_smiles: "tree_has_target (set_target_smiles K s f)"
  by (simp add: tree_has_target_def set_target_smiles_def set_target_mol_def split: prod.splits)

lemma tht_build_routes: "tree_has_target f \<Longrightarrow> tree_has_target (build_routes A n scorer f)"
  by (simp add: tree_has_target_def build_routes_def Let_def split: prod.splits)

lemma tht_prepare_tree:
  "tree_has_target f \<Longrightarrow> prepare_tree K T f = (r, f') \<Longrightarrow> tree_has_target f'"
  by (auto simp: tree_has_target_def prepare_tree_def target_smiles_def Let_def
      split: sum.splits prod.splits option.splits)

lemma tht_tree_search:
  assumes "tree_has_target f" and "tree_search K T f = Some (r, f')"
  shows "tree_has_target f'"
proof -
  obtain q f1 where e: "ensure_tree K T f = (q, f1)" by (cases "ensure_tree K T f")
  have t1: "tree_has_target f1"
    using assms(1) e by (auto simp: ensure_tree_def dest: tht_prepare_tree split: if_splits)
  show ?thesis
  proof (cases q)
    case (Inl e')
    with assms(2) e t1 show ?thesis by (simp add: tree_search_def)
  next
    case (Inr u)
    define f2 where "f2 = f1\<lparr>search_stats :=
                       \<lparr>returned_first = Some False, iterations = Some 0, time = None\<rparr>\<rparr>"
    obtain time0 w1 where t0: "time_time T (world f2) = (time0, w1)" by (cases "time_time T (world f2)")
    obtain t1 w2 where tt: "time_time T w1 = (t1, w2)" by (cases "time_time T w1")
    from assms(2) e Inr t0 tt obtain q3 f3 where
      loop: "search_loop T time0 (f2\<lparr>world := w2\<rparr>) (t1 - time0) 1 = Some (q3, f3)"
      and f': "tree f' = tree f3" "target_mol f' = target_mol f3"
      by (auto simp: tree_search_def f2_def Let_def split: option.splits sum.splits prod.splits)
    from search_loop_frame[OF loop] f' t1 show ?thesis
      by (simp add: tree_has_target_def f2_def)
  qed
qed

lemma tht_config: "tree_has_target f \<Longrightarrow> tree_has_target (f\<lparr>config := cfg\<rparr>)"
  by (simp add: tree_has_target_def)

lemma tht_world: "tree_has_target f \<Longrightarrow> tree_has_target (f\<lparr>world := w\<rparr>)"
  by (simp add: tree_has_target_def)

lemma tht_read_settings:
  "tree_has_target f \<Longrightarrow> read_settings K params f = (r, f') \<Longrightarrow> tree_has_target f'"
  unfolding read_settings_def
  apply (erule run_steps_invariant[where P = tree_has_target, rotated -1])
   apply (auto elim!: assign_invariant[where P = tree_has_target, rotated -1]
      simp: tht_config tht_world tht_set_target_smiles)
  done

lemma tht_run_from_json:
  assumes "tree_has_target f" and "run_from_json K T A params f = Some (r, f')"
  shows "tree_has_target f'"
proof -
  obtain q1 f1 where rs: "read_settings K params f = (q1, f1)" by (cases "read_settings K params f")
  have t1: "tree_has_target f1" using tht_read_settings[OF assms(1) rs] .
  show ?thesis
  proof (cases q1)
    case (Inl e)
    with assms(2) rs t1 show ?thesis by (simp add: run_from_json_def)
  next
    case u1: (Inr u)
    obtain q2 f2 where pt: "prepare_tree K T f1 = (q2, f2)" by (cases "prepare_tree K T f1")
    have t2: "tree_has_target f2" using tht_prepare_tree[OF t1 pt] .
    show ?thesis
    proof (cases q2)
      case (Inl e)
      with assms(2) rs u1 pt t2 show ?thesis by (simp add: run_from_json_def)
    next
      case u2: (Inr u')
      from assms(2) rs u1 pt u2 obtain q3 f3 where ts: "tree_search K T f2 = Some (q3, f3)"
        by (cases "tree_search K T f2") (auto simp: run_from_json_def)
      have t3: "tree_has_target f3" using tht_tree_search[OF t2 ts] .
      show ?thesis
      proof (cases q3)
        case (Inl e)
        with assms(2) rs u1 pt u2 ts t3 show ?thesis by (simp add: run_from_json_def)
      next
        case (Inr tp)
        have t4: "tree_has_target (build_routes A 5 ''state score'' f3)"
          using t3 by (rule tht_build_routes)
        from assms(2) rs u1 pt u2 ts Inr
        have "f' = build_routes A 5 ''state score'' f3 \<or>
              (\<exists>w. f' = (build_routes A 5 ''state score'' f3)\<lparr>world := w\<rparr>)"
          by (auto simp: run_from_json_def Let_def split: option.splits sum.splits if_splits)
        with t4 show ?thesis by (auto simp: tht_world)
      qed
    qed
  qed
qed

lemma reachable_tree_has_target: "reachable K T A f \<Longrightarrow> tree_has_target f"
proof (induction rule: reachable.induct)
  case (by_init cfg w)
  then show ?case by (simp add: tree_has_target_def init_def)
qed (auto simp: tht_config tht_world tht_set_target_mol tht_set_target_smiles
      intro: tht_build_routes tht_prepare_tree tht_tree_search tht_run_from_json)

section \<open>Facts about the JSON interface\<close>







lemma get_settings_policy_key:
  assumes "get_settings K f = Inr d"
  shows "(length (expansion_selection K (world f)) = 1 \<longrightarrow>
            d ''policy'' = Some (expansion_selection K (world f) ! 0) \<and> d ''policies'' = None) \<and>
         (length (expansion_selection K (world f)) \<noteq> 1 \<longrightarrow>
            d ''policies'' = Some (PList (expansion_selection K (world f))) \<and> d ''policy'' = None)"
  using assms
  by (auto simp: get_settings_def Let_def split: sum.splits if_splits)

lemma run_from_json_request:
  assumes "run_from_json K T A params f = Some (Inr resp, f')"
  shows "get_settings K f' = Inr (request resp)"
  using assms
  by (auto simp: run_from_json_def Let_def split: prod.splits sum.splits option.splits if_splits)

section \<open>Running the test doubles\<close>

lemma toy_tree_simps:
  "SearchTree (toy_tree b k) s cfg w = (Tree, w)"
  "select_leaf (toy_tree b k) t w = (Node 0, w)"
  "expand (toy_tree b k) n w = w\<lparr>clock := clock w + 1\<rparr>"
  "is_terminal (toy_tree b k) (Node d) w = (2 \<le> d \<or> d \<in> set (dead w))"
  "promising_child (toy_tree b k) (Node d) w =
     (if d < k then (Some (Node (d + 1)), w) else (None, w\<lparr>dead := d # dead w\<rparr>))"
  "backpropagate (toy_tree b k) t n sc w = w"
  "state_score (toy_tree b k) n w = 1"
  "state_is_solved (toy_tree b k) n w = b"
  "time_time (toy_tree b k) w = (real (clock w), w)"
  by (simp_all add: toy_tree_def)

lemma stuck_tree_simps:
  "is_terminal stuck_tree n w = False"
  "promising_child stuck_tree n w = (None, w)"
  by (simp_all add: stuck_tree_def)

lemma toy_descend:
  "dead w = [] \<Longrightarrow>
     descend (toy_tree b 2) (Node 0) w = Some (Node 2, w\<lparr>clock := clock w + 2\<rparr>)"
  apply (subst descend.simps, simp add: toy_tree_simps)
  apply (subst descend.simps, simp add: toy_tree_simps)
  apply (subst descend.simps, simp add: toy_tree_simps)
  done

lemma toy_dead_end:
  "dead w = [] \<Longrightarrow>
     descend (toy_tree b 1) (Node 0) w = Some (Node 1, w\<lparr>clock := clock w + 1, dead := [1]\<rparr>)"
  apply (subst descend.simps, simp add: toy_tree_simps)
  apply (subst descend.simps, simp add: toy_tree_simps)
  apply (subst descend.simps, simp add: toy_tree_simps)
  done

lemma toy_prepare:
  "prepare_tree toy_context (toy_tree b k) (toy_finder rf tlimit ilimit) =
     (Inr (), (toy_finder rf tlimit ilimit)\<lparr>tree := Some Tree\<rparr>)"
  by (simp add: prepare_tree_def toy_finder_def toy_context_def toy_tree_simps init_def
      set_target_mol_def toy_config_def toy_world0_def target_smiles_def)

lemmas toy_defs = toy_finder_def init_def set_target_mol_def toy_tree_simps toy_config_def
  toy_world0_def loop_guard_def toy_descend iteration_def ensure_tree_def

lemma stuck_descend_aux: "descend T leaf w = Some r \<Longrightarrow> T \<noteq> stuck_tree"
  apply (erule descend.raw_induct[rotated, where P = "\<lambda>T leaf w r. T \<noteq> stuck_tree"])
  apply (clarsimp simp: stuck_tree_simps)
  apply blast
  done

lemma backward_clock_tree_simps:
  "SearchTree backward_clock_tree s cfg w = (Tree, w)"
  "select_leaf backward_clock_tree t w = (Node 0, w)"
  "expand backward_clock_tree n w = w\<lparr>clock := clock w + 1\<rparr>"
  "is_terminal backward_clock_tree (Node d) w = (2 \<le> d \<or> d \<in> set (dead w))"
  "promising_child backward_clock_tree (Node d) w =
     (if d < 2 then (Some (Node (d + 1)), w) else (None, w\<lparr>dead := d # dead w\<rparr>))"
  "backpropagate backward_clock_tree t n sc w = w"
  "state_score backward_clock_tree n w = 1"
  "state_is_solved backward_clock_tree n w = False"
  "time_time backward_clock_tree w = (5 - real (clock w), w\<lparr>clock := clock w + 1\<rparr>)"
  by (simp_all add: backward_clock_tree_def toy_tree_def)

lemma backward_clock_descend:
  "dead w = [] \<Longrightarrow>
     descend backward_clock_tree (Node 0) w = Some (Node 2, w\<lparr>clock := clock w + 2\<rparr>)"
  apply (subst descend.simps, simp add: backward_clock_tree_simps)
  apply (subst descend.simps, simp add: backward_clock_tree_simps)
  apply (subst descend.simps, simp add: backward_clock_tree_simps)
  done

lemma late_tree_simps:
  "SearchTree late_tree s cfg w = (Tree, w)"
  "select_leaf late_tree t w = (Node 0, w)"
  "expand late_tree n w = w\<lparr>clock := clock w + 1\<rparr>"
  "is_terminal late_tree (Node d) w = (2 \<le> d \<or> d \<in> set (dead w))"
  "promising_child late_tree (Node d) w =
     (if d < 2 then (Some (Node (d + 1)), w) else (None, w\<lparr>dead := d # dead w\<rparr>))"
  "backpropagate late_tree t n sc w = w"
  "state_score late_tree n w = 1"
  "state_is_solved late_tree n w = (4 \<le> clock w)"
  "time_time late_tree w = (real (clock w), w)"
  by (simp_all add: late_tree_def toy_tree_def)

lemma late_descend:
  "dead w = [] \<Longrightarrow>
     descend late_tree (Node 0) w = Some (Node 2, w\<lparr>clock := clock w + 2\<rparr>)"
  apply (subst descend.simps, simp add: late_tree_simps)
  apply (subst descend.simps, simp add: late_tree_simps)
  apply (subst descend.simps, simp add: late_tree_simps)
  done

lemma toy_context_simps:
  "stock_reset_exclusion_list toy_context w = w\<lparr>excluded := []\<rparr>"
  "stock_contains toy_context None w = False"
  "stock_contains toy_context (Some x) w = (x \<in> set (stocked w) \<and> x \<notin> set (excluded w))"
  "stock_select toy_context v w = w\<lparr>stock_sel := v\<rparr>"
  "stock_selection toy_context w = stock_sel w"
  "expansion_select toy_context v w = w\<lparr>policy_sel := (case v of PList xs \<Rightarrow> xs | _ \<Rightarrow> [v])\<rparr>"
  "expansion_selection toy_context w = policy_sel w"
  "filter_select toy_context v w = w\<lparr>filter_sel := v\<rparr>"
  "filter_deselect toy_context w = w\<lparr>filter_sel := PNone\<rparr>"
  "filter_selection toy_context w = filter_sel w"
  "Molecule toy_context s w = (Mol s, w)"
  "smiles toy_context (Mol s) w = s"
  by (simp_all add: toy_context_def)

lemma toy_analysis_simps:
  "scorers_getitem toy_analysis name w = Scorer name"
  "scorers_objects toy_analysis w = [Scorer ''state score'']"
  "TreeAnalysis toy_analysis t sc w = (Analysis, w)"
  "from_analysis toy_analysis a n w = (Routes, w)"
  "routes_dicts toy_analysis r w = PList []"
  "compute_scores toy_analysis r scs w = w"
  "dict_with_scores toy_analysis r w = PList []"
  by (simp_all add: toy_analysis_def)

lemmas toy_run_defs = run_from_json_def read_settings_def assign_def dict_get_def toy_context_simps
  toy_analysis_simps set_target_smiles_def prepare_tree_def target_smiles_def tree_search_def
  build_routes_def get_settings_def toy_defs search_loop.simps

section \<open>The claims\<close>

subsection \<open>C1: the inner descent\<close>

text \<open>
  C1, as amended. The claim says that the inner descent of an iteration always
  terminates, stopping when the current leaf has no promising child. The loop has one
  exit only, the terminal test: the descent returns at a terminal leaf and nowhere
  else; a promising child is expanded and becomes the current leaf; when there is no
  promising child the current leaf is kept and tested again, so the descent stops there
  exactly when that call has made the leaf terminal, and goes on asking otherwise.
\<close>

theorem descend_ends_at_terminal_leaf:
  "(descend T leaf w = Some (leaf', w') \<longrightarrow> is_terminal T leaf' w') \<and>
   (is_terminal T leaf w \<longrightarrow> descend T leaf w = Some (leaf, w)) \<and>
   (\<not> is_terminal T leaf w \<and> promising_child T leaf w = (Some child, w1) \<longrightarrow>
      descend T leaf w = descend T child (expand T child w1)) \<and>
   (\<not> is_terminal T leaf w \<and> promising_child T leaf w = (None, w1) \<longrightarrow>
      descend T leaf w = (if is_terminal T leaf w1 then Some (leaf, w1) else descend T leaf w1))"
proof (intro conjI impI)
  assume "descend T leaf w = Some (leaf', w')"
  from descend_terminal[OF this] show "is_terminal T leaf' w'" by simp
next
  assume "is_terminal T leaf w"
  then show "descend T leaf w = Some (leaf, w)" by (subst descend.simps) simp
next
  assume "\<not> is_terminal T leaf w \<and> promising_child T leaf w = (Some child, w1)"
  then show "descend T leaf w = descend T child (expand T child w1)"
    by (subst descend.simps) simp
next
  assume a: "\<not> is_terminal T leaf w \<and> promising_child T leaf w = (None, w1)"
  then have "descend T leaf w = descend T leaf w1"
    by (subst descend.simps) simp
  also have "\<dots> = (if is_terminal T leaf w1 then Some (leaf, w1) else descend T leaf w1)"
  proof (cases "is_terminal T leaf w1")
    case True
    then show ?thesis by (subst descend.simps) simp
  next
    case False
    then show ?thesis by simp
  qed
  finally show "descend T leaf w =
      (if is_terminal T leaf w1 then Some (leaf, w1) else descend T leaf w1)" .
qed

text \<open>
  The theorem at work on the chain with one child: the root has a child, the child has
  none, is marked and is therefore terminal at the next test.
\<close>

theorem descend_ends_at_terminal_leaf_witness:
  "is_terminal (toy_tree False 1) (Node 1) (toy_world0\<lparr>clock := 1, dead := [1]\<rparr>) \<and>
   descend (toy_tree False 1) (Node 2) toy_world0 = Some (Node 2, toy_world0) \<and>
   descend (toy_tree False 1) (Node 0) toy_world0
     = descend (toy_tree False 1) (Node 1) (toy_world0\<lparr>clock := 1\<rparr>) \<and>
   descend (toy_tree False 1) (Node 1) (toy_world0\<lparr>clock := 1\<rparr>)
     = Some (Node 1, toy_world0\<lparr>clock := 1, dead := [1]\<rparr>)"
  using descend_ends_at_terminal_leaf[of "toy_tree False 1" "Node 0" toy_world0 "Node 1"
      "toy_world0\<lparr>clock := 1, dead := [1]\<rparr>" "Node 1" toy_world0]
    descend_ends_at_terminal_leaf[of "toy_tree False 1" "Node 2" toy_world0 "Node 2" toy_world0]
    descend_ends_at_terminal_leaf[of "toy_tree False 1" "Node 1" "toy_world0\<lparr>clock := 1\<rparr>"
      "Node 1" "toy_world0\<lparr>clock := 1, dead := [1]\<rparr>" "Node 2"
      "toy_world0\<lparr>clock := 1, dead := [1]\<rparr>"]
    toy_dead_end[of toy_world0 False]
  by (simp add: toy_tree_simps toy_world0_def)

text \<open>
  The claim as stated fails: on a tree whose root is not terminal and has no promising
  child, and stays so, the descent never returns.
\<close>

theorem descend_never_returns_counterexample:
  "descend stuck_tree (Node 0) toy_world0 = None"
  using stuck_descend_aux[of stuck_tree "Node 0" toy_world0]
  by (cases "descend stuck_tree (Node 0) toy_world0") auto

subsection \<open>C2: a request without a time limit\<close>




subsection \<open>C3: required keys\<close>




subsection \<open>C4: assigning a new target\<close>

text \<open>
  C4, as amended. The claim says that assigning a new target clears tree, analysis and
  routes together, as re-preparing does. The setter of \<^verbatim>\<open>target_mol\<close> discards the tree
  and replaces the target, and changes nothing else: configuration, collaborators,
  statistics, analysis and routes are as before. The setter of \<^verbatim>\<open>target_smiles\<close> builds
  the molecule and does the same with it. It is \<^verbatim>\<open>prepare_tree\<close> that clears analysis
  and routes, when it creates the new tree, and it leaves them when it raises; so the
  \<^verbatim>\<open>tree_search\<close> that follows the assignment of a target, which prepares the tree
  first, ends with a tree and with analysis and routes cleared.
\<close>

theorem target_setter_clears_tree_only:
  "(tree (set_target_mol m f) = None \<and> target_mol (set_target_mol m f) = m \<and>
    config (set_target_mol m f) = config f \<and> world (set_target_mol m f) = world f \<and>
    search_stats (set_target_mol m f) = search_stats f \<and>
    analysis (set_target_mol m f) = analysis f \<and> routes (set_target_mol m f) = routes f) \<and>
   (tree (set_target_smiles K s f) = None \<and>
    target_mol (set_target_smiles K s f) = Some (fst (Molecule K s (world f))) \<and>
    world (set_target_smiles K s f) = snd (Molecule K s (world f)) \<and>
    config (set_target_smiles K s f) = config f \<and>
    search_stats (set_target_smiles K s f) = search_stats f \<and>
    analysis (set_target_smiles K s f) = analysis f \<and>
    routes (set_target_smiles K s f) = routes f) \<and>
   (prepare_tree K T f = (Inr u, f') \<longrightarrow>
      tree f' \<noteq> None \<and> analysis f' = None \<and> routes f' = None \<and>
      target_mol f' = target_mol f \<and> config f' = config f \<and> search_stats f' = search_stats f) \<and>
   (prepare_tree K T f = (Inl e, f') \<longrightarrow>
      tree f' = tree f \<and> analysis f' = analysis f \<and> routes f' = routes f \<and>
      target_mol f' = target_mol f \<and> config f' = config f \<and> search_stats f' = search_stats f) \<and>
   (tree_search K T (set_target_mol (Some mol) f) = Some (r, f'') \<longrightarrow>
      tree f'' \<noteq> None \<and> analysis f'' = None \<and> routes f'' = None \<and>
      target_mol f'' = Some mol \<and> config f'' = config f)"
proof (intro conjI impI)
  assume ts: "tree_search K T (set_target_mol (Some mol) f) = Some (r, f'')"
  obtain q g where e: "ensure_tree K T (set_target_mol (Some mol) f) = (q, g)"
    by (cases "ensure_tree K T (set_target_mol (Some mol) f)")
  then have g: "tree g \<noteq> None \<and> analysis g = None \<and> routes g = None
      \<and> target_mol g = Some mol \<and> config g = config f"
    by (auto simp: ensure_tree_def prepare_tree_def set_target_mol_def target_smiles_def Let_def
        split: prod.splits)
  from tree_search_frame[OF ts e] g
  show "tree f'' \<noteq> None" "analysis f'' = None" "routes f'' = None"
    "target_mol f'' = Some mol" "config f'' = config f"
    by simp_all
qed (auto simp: set_target_mol_def set_target_smiles_def prepare_tree_def Let_def
      split: prod.splits sum.splits)

text \<open>
  Preparing again on a controller that holds an analysis and routes clears both; on a
  controller without a target it raises and leaves them; a search after assigning a
  target clears them.
\<close>

theorem target_setter_clears_tree_only_witness:
  "tree (snd (prepare_tree toy_context (toy_tree False 2)
            (build_routes toy_analysis 5 ''state score''
               ((toy_finder False 0 0)\<lparr>tree := Some Tree\<rparr>)))) \<noteq> None \<and>
   analysis (snd (prepare_tree toy_context (toy_tree False 2)
            (build_routes toy_analysis 5 ''state score''
               ((toy_finder False 0 0)\<lparr>tree := Some Tree\<rparr>)))) = None \<and>
   routes (snd (prepare_tree toy_context (toy_tree False 2)
            (build_routes toy_analysis 5 ''state score''
               ((toy_finder False 0 0)\<lparr>tree := Some Tree\<rparr>)))) = None \<and>
   analysis (snd (prepare_tree toy_context (toy_tree False 2)
            (build_routes toy_analysis 5 ''state score''
               (init (toy_config False 0 0) toy_world0)))) = Some Analysis \<and>
   (\<exists>r f''. tree_search toy_context (toy_tree False 2)
               (set_target_mol (Some (Mol (PStr ''CCN'')))
                  (build_routes toy_analysis 5 ''state score''
                     ((toy_finder False 0 0)\<lparr>tree := Some Tree\<rparr>))) = Some (r, f'') \<and>
            tree f'' \<noteq> None \<and> analysis f'' = None \<and> routes f'' = None \<and>
            target_mol f'' = Some (Mol (PStr ''CCN'')))"
proof -
  let ?f = "build_routes toy_analysis 5 ''state score''
               ((toy_finder False 0 0)\<lparr>tree := Some Tree\<rparr>)"
  let ?g = "build_routes toy_analysis 5 ''state score''
               (init (toy_config False 0 0) toy_world0) :: (toy_world, toy_obj) finder"
  have "fst (prepare_tree toy_context (toy_tree False 2) ?f) = Inr ()"
    by (simp add: prepare_tree_def build_routes_def toy_analysis_simps toy_context_simps
        target_smiles_def toy_defs)
  then have p1: "prepare_tree toy_context (toy_tree False 2) ?f
      = (Inr (), snd (prepare_tree toy_context (toy_tree False 2) ?f))"
    by (simp add: prod_eq_iff)
  have "fst (prepare_tree toy_context (toy_tree False 2) ?g) = Inl (AttributeError ''smiles'')"
    by (simp add: prepare_tree_def build_routes_def toy_analysis_simps toy_context_simps
        target_smiles_def toy_defs)
  then have p2: "prepare_tree toy_context (toy_tree False 2) ?g
      = (Inl (AttributeError ''smiles''), snd (prepare_tree toy_context (toy_tree False 2) ?g))"
    by (simp add: prod_eq_iff)
  have ag: "analysis ?g = Some Analysis"
    by (simp add: build_routes_def toy_analysis_simps)
  have "\<exists>r f''. tree_search toy_context (toy_tree False 2)
               (set_target_mol (Some (Mol (PStr ''CCN''))) ?f) = Some (r, f'')"
    by (simp add: tree_search_def prepare_tree_def build_routes_def toy_analysis_simps
        toy_context_simps target_smiles_def toy_defs search_loop.simps)
  then obtain r f'' where ts: "tree_search toy_context (toy_tree False 2)
               (set_target_mol (Some (Mol (PStr ''CCN''))) ?f) = Some (r, f'')"
    by blast
  from p1 ts
    target_setter_clears_tree_only[where K = toy_context and T = "toy_tree False 2" and f = ?f
      and u = "()" and f' = "snd (prepare_tree toy_context (toy_tree False 2) ?f)"
      and mol = "Mol (PStr ''CCN'')" and r = r and f'' = f'']
  have a: "tree (snd (prepare_tree toy_context (toy_tree False 2) ?f)) \<noteq> None \<and>
           analysis (snd (prepare_tree toy_context (toy_tree False 2) ?f)) = None \<and>
           routes (snd (prepare_tree toy_context (toy_tree False 2) ?f)) = None \<and>
           tree f'' \<noteq> None \<and> analysis f'' = None \<and> routes f'' = None \<and>
           target_mol f'' = Some (Mol (PStr ''CCN''))"
    by simp
  from p2 ag
    target_setter_clears_tree_only[where K = toy_context and T = "toy_tree False 2" and f = ?g
      and e = "AttributeError ''smiles''"
      and f' = "snd (prepare_tree toy_context (toy_tree False 2) ?g)"]
  have b: "analysis (snd (prepare_tree toy_context (toy_tree False 2) ?g)) = Some Analysis"
    by simp
  from a b ts show ?thesis by blast
qed

text \<open>
  The claim as stated fails: after routes have been built for one target, assigning
  another target leaves the analysis and the routes of the first one readable.
\<close>

theorem target_setter_keeps_analysis_counterexample:
  "tree (set_target_mol (Some (Mol (PStr ''CCN'')))
          (build_routes toy_analysis 5 ''state score''
             ((toy_finder False 0 0)\<lparr>tree := Some Tree\<rparr>))) = None \<and>
   analysis (set_target_mol (Some (Mol (PStr ''CCN'')))
          (build_routes toy_analysis 5 ''state score''
             ((toy_finder False 0 0)\<lparr>tree := Some Tree\<rparr>))) = Some Analysis \<and>
   routes (set_target_mol (Some (Mol (PStr ''CCN'')))
          (build_routes toy_analysis 5 ''state score''
             ((toy_finder False 0 0)\<lparr>tree := Some Tree\<rparr>))) = Some Routes"
  by (simp add: set_target_mol_def build_routes_def toy_analysis_def toy_finder_def init_def)

subsection \<open>C5: the recorded time\<close>

text \<open>
  C5. The claim says that the recorded and returned time is measured at loop end on
  every exit, the early return included. The assignment
  \<^verbatim>\<open>time_past = time.time() - time0\<close> is the last statement of the loop body, and the
  \<^verbatim>\<open>break\<close> comes before it: on the early return the recorded time is the value from
  before the final iteration. Here the first iteration finds a solution and takes three
  seconds of the clock, which starts at 0 and stands at 3 on return; the time recorded
  and returned is 0.
\<close>

theorem early_return_records_stale_time:
  "tree_search toy_context (toy_tree True 2) (toy_finder True 100 100) =
     Some (Inr 0, (toy_finder True 100 100)
        \<lparr>world := toy_world0\<lparr>clock := 3\<rparr>, tree := Some Tree,
         search_stats := \<lparr>returned_first = Some True, iterations = Some 1, time = Some 0\<rparr>\<rparr>)"
  apply (simp add: tree_search_def ensure_tree_def toy_prepare)
  apply (simp add: toy_defs search_loop.simps)
  done

subsection \<open>C6: return on the first solution\<close>

text \<open>
  C6. With \<^verbatim>\<open>return_first\<close> set, let \<^verbatim>\<open>tree_search\<close> prepare the tree, read the clock
  twice and run \<open>k\<close> iterations that do not end in a solved leaf. If the loop condition
  admits a further iteration, and the final leaf that its descent reaches from the
  selected and expanded leaf is solved in the state that backpropagation of that leaf
  leaves, then \<^verbatim>\<open>tree_search\<close> returns there: the state is the one backpropagation
  left, \<^verbatim>\<open>returned_first\<close> is set, and the iteration count is \<open>k + 1\<close>, the number of
  the iteration at which the first solution appeared, which is also the value of \<open>i\<close>.
\<close>

theorem return_first_stops_at_first_solution:
  assumes "truthy (return_first (config f))"
    and "ensure_tree K T f = (Inr u, f1)"
    and "time_time T (world f1) = (time0, w1)"
    and "time_time T w1 = (t1, w2)"
    and "unsolved_iterations T time0 k
           (f1\<lparr>search_stats := \<lparr>returned_first = Some False, iterations = Some 0, time = None\<rparr>,
               world := w2\<rparr>, t1 - time0, 1)
           (g, time_past, i)"
    and "loop_guard time_past i (config g) = Inr True"
    and "tree g = Some t"
    and "select_leaf T t (world g) = (leaf0, v1)"
    and "descend T leaf0 (expand T leaf0 v1) = Some (leaf, v3)"
    and "state_is_solved T leaf (backpropagate T t leaf (state_score T leaf v3) v3)"
  shows "tree_search K T f =
           Some (Inr time_past,
                 g\<lparr>world := backpropagate T t leaf (state_score T leaf v3) v3,
                    search_stats := \<lparr>returned_first = Some True, iterations = Some (int k + 1),
                                      time = Some time_past\<rparr>\<rparr>)
         \<and> i = int k + 1"
proof -
  let ?s0 = "f1\<lparr>search_stats := \<lparr>returned_first = Some False, iterations = Some 0, time = None\<rparr>,
               world := w2\<rparr>"
  let ?v4 = "backpropagate T t leaf (state_score T leaf v3) v3"
  from unsolved_iterations_loop[OF assms(5)]
  have loop: "search_loop T time0 ?s0 (t1 - time0) 1 = search_loop T time0 g time_past i"
    and cfg: "config g = config f1"
    and i: "i = 1 + int k"
    and n: "iterations (search_stats g) = Some (int k)"
    and rf: "returned_first (search_stats g) = Some False"
    and tm: "time (search_stats g) = None"
    by simp_all
  have it: "iteration T g =
      Some (Inr leaf, g\<lparr>search_stats := (search_stats g)\<lparr>iterations := Some (int k + 1)\<rparr>,
                        world := ?v4\<rparr>)"
    using iteration_steps[OF n assms(7,8,9)] .
  have "config f1 = config f" using ensure_tree_frame[OF assms(2)] by simp
  with cfg assms(1) have tr: "truthy (return_first (config g))" by simp
  have st: "(search_stats g)\<lparr>iterations := Some (int k + 1), returned_first := Some True\<rparr>
      = \<lparr>returned_first = Some True, iterations = Some (int k + 1), time = None\<rparr>"
    using tm by (cases "search_stats g") simp
  from search_loop_break[OF assms(6) it, of time0] tr assms(10)
  have "search_loop T time0 g time_past i =
      Some (Inr time_past,
            g\<lparr>world := ?v4,
              search_stats := \<lparr>returned_first = Some True, iterations = Some (int k + 1),
                                time = None\<rparr>\<rparr>)"
    by (simp add: st)
  with loop have "search_loop T time0 ?s0 (t1 - time0) 1 =
      Some (Inr time_past,
            g\<lparr>world := ?v4,
              search_stats := \<lparr>returned_first = Some True, iterations = Some (int k + 1),
                                time = None\<rparr>\<rparr>)"
    by simp
  then have "tree_search K T f =
           Some (Inr time_past,
                 g\<lparr>world := ?v4,
                    search_stats := \<lparr>returned_first = Some True, iterations = Some (int k + 1),
                                      time = Some time_past\<rparr>\<rparr>)"
    using assms(2,3,4) by (simp add: tree_search_def)
  with i show ?thesis by simp
qed

text \<open>
  On the chain whose leaf is solved from 4 seconds on, the first iteration ends unsolved
  at 3 seconds and the second finds the solution: two iterations are recorded.
\<close>

theorem return_first_stops_at_first_solution_witness:
  "tree_search toy_context late_tree (toy_finder True 100 100) =
     Some (Inr 3, (toy_finder True 100 100)
        \<lparr>tree := Some Tree, world := toy_world0\<lparr>clock := 6\<rparr>,
         search_stats := \<lparr>returned_first = Some True, iterations = Some 2, time = Some 3\<rparr>\<rparr>)"
proof -
  let ?f1 = "(toy_finder True 100 100)\<lparr>tree := Some Tree\<rparr>"
  let ?s0 = "?f1\<lparr>search_stats := \<lparr>returned_first = Some False, iterations = Some 0, time = None\<rparr>,
               world := toy_world0\<rparr>"
  let ?g = "?f1\<lparr>search_stats := \<lparr>returned_first = Some False, iterations = Some 1, time = None\<rparr>,
               world := toy_world0\<lparr>clock := 3\<rparr>\<rparr>"
  have h1: "truthy (return_first (config (toy_finder True 100 100)))"
    by (simp add: toy_defs)
  have h2: "ensure_tree toy_context late_tree (toy_finder True 100 100) = (Inr (), ?f1)"
    by (simp add: ensure_tree_def prepare_tree_def target_smiles_def toy_context_simps
        late_tree_simps toy_finder_def init_def set_target_mol_def toy_config_def toy_world0_def)
  have h3: "time_time late_tree (world ?f1) = (0, toy_world0)"
    by (simp add: late_tree_simps toy_finder_def init_def set_target_mol_def toy_world0_def)
  have h4: "time_time late_tree toy_world0 = (0, toy_world0)"
    by (simp add: late_tree_simps toy_world0_def)
  have h5: "unsolved_iterations late_tree 0 (Suc 0) (?s0, 0 - 0, 1) (?g, 3, 2)"
    by (rule one_more[where n = 0 and t = Tree and ?leaf0.0 = "Node 0" and ?w1.0 = toy_world0
          and leaf = "Node 2" and ?w3.0 = "toy_world0\<lparr>clock := 3\<rparr>" and now = 3
          and ?w5.0 = "toy_world0\<lparr>clock := 3\<rparr>"])
       (simp_all add: late_tree_simps late_descend toy_finder_def init_def set_target_mol_def
          toy_config_def toy_world0_def loop_guard_def no_iteration)
  have h6: "loop_guard 3 2 (config ?g) = Inr True"
    by (simp add: toy_finder_def init_def set_target_mol_def toy_config_def loop_guard_def)
  have h7: "tree ?g = Some Tree" by simp
  have h8: "select_leaf late_tree Tree (world ?g) = (Node 0, toy_world0\<lparr>clock := 3\<rparr>)"
    by (simp add: late_tree_simps)
  have h9: "descend late_tree (Node 0) (expand late_tree (Node 0) (toy_world0\<lparr>clock := 3\<rparr>))
      = Some (Node 2, toy_world0\<lparr>clock := 6\<rparr>)"
    by (simp add: late_tree_simps late_descend toy_world0_def)
  have h10: "state_is_solved late_tree (Node 2)
      (backpropagate late_tree Tree (Node 2)
         (state_score late_tree (Node 2) (toy_world0\<lparr>clock := 6\<rparr>)) (toy_world0\<lparr>clock := 6\<rparr>))"
    by (simp add: late_tree_simps toy_world0_def)
  from return_first_stops_at_first_solution[OF h1 h2 h3 h4 h5 h6 h7 h8 h9 h10]
  show ?thesis
    by (simp add: late_tree_simps)
qed

subsection \<open>C7: the iteration limit\<close>

text \<open>
  C7, as amended. When \<^verbatim>\<open>tree_search\<close> returns and the iteration limit is a number,
  the recorded number of iterations is at most the limit, or is 0 when the limit is
  negative: it never exceeds a limit that is not negative.
\<close>

theorem iterations_within_limit:
  assumes "tree_search K T f = Some (Inr time_past, f')"
    and "num_of (iteration_limit (config f)) = Some L"
  shows "\<exists>m. iterations (search_stats f') = Some m \<and> 0 \<le> m \<and> real_of_int m \<le> max 0 L
           \<and> iteration_limit (config f') = iteration_limit (config f)"
proof -
  obtain u f1 where e: "ensure_tree K T f = (Inr u, f1)"
    using assms(1) by (auto simp: tree_search_def split: prod.splits sum.splits)
  define f2 where "f2 = f1\<lparr>search_stats :=
                       \<lparr>returned_first = Some False, iterations = Some 0, time = None\<rparr>\<rparr>"
  obtain time0 w1 where t0: "time_time T (world f2) = (time0, w1)" by (cases "time_time T (world f2)")
  obtain t1 w2 where t1: "time_time T w1 = (t1, w2)" by (cases "time_time T w1")
  from assms(1) e t0 t1 obtain f3 where
    loop: "search_loop T time0 (f2\<lparr>world := w2\<rparr>) (t1 - time0) 1 = Some (Inr time_past, f3)"
    and f': "f' = f3\<lparr>search_stats := (search_stats f3)\<lparr>time := Some time_past\<rparr>\<rparr>"
    by (auto simp: tree_search_def f2_def Let_def split: option.splits sum.splits prod.splits)
  have cfg: "config (f2\<lparr>world := w2\<rparr>) = config f"
    using ensure_tree_frame[OF e] by (simp add: f2_def)
  from search_loop_count[OF loop] obtain m where
    m: "iterations (search_stats f3) = Some m" "0 \<le> m" "m \<le> max 0 (limit_floor (config f))"
    using ensure_tree_frame[OF e] by (auto simp: f2_def)
  have "real_of_int m \<le> max 0 L"
  proof (cases "m \<le> 0")
    case True
    then show ?thesis by simp
  next
    case False
    with m(3) have "m \<le> \<lfloor>L\<rfloor>" using assms(2) by (simp add: limit_floor_def)
    then have "real_of_int m \<le> L" by (simp add: le_floor_iff)
    then show ?thesis by simp
  qed
  moreover have "config f' = config f"
    using search_loop_frame[OF loop] cfg f' by simp
  ultimately show ?thesis using m f' by simp
qed

theorem iterations_within_limit_witness:
  "iterations (search_stats ((toy_finder True 100 100)
        \<lparr>world := toy_world0\<lparr>clock := 3\<rparr>, tree := Some Tree,
         search_stats := \<lparr>returned_first = Some True, iterations = Some 1, time = Some 0\<rparr>\<rparr>)) = Some 1
   \<and> real_of_int 1 \<le> max 0 100"
proof -
  have run: "tree_search toy_context (toy_tree True 2) (toy_finder True 100 100) =
     Some (Inr 0, (toy_finder True 100 100)
        \<lparr>world := toy_world0\<lparr>clock := 3\<rparr>, tree := Some Tree,
         search_stats := \<lparr>returned_first = Some True, iterations = Some 1, time = Some 0\<rparr>\<rparr>)"
    apply (simp add: tree_search_def ensure_tree_def toy_prepare)
    apply (simp add: toy_defs search_loop.simps)
    done
  have lim: "num_of (iteration_limit (config (toy_finder True 100 100))) = Some 100"
    by (simp add: toy_defs)
  from iterations_within_limit[OF run lim] show ?thesis by simp
qed

text \<open>
  The claim as stated fails for a negative limit: no iteration runs and the recorded
  count 0 is greater than the limit \<open>-1\<close>.
\<close>

theorem iterations_exceed_negative_limit_counterexample:
  "tree_search toy_context (toy_tree False 2) (toy_finder False 100 (- 1)) =
     Some (Inr 0, (toy_finder False 100 (- 1))
        \<lparr>tree := Some Tree,
         search_stats := \<lparr>returned_first = Some False, iterations = Some 0, time = Some 0\<rparr>\<rparr>)
   \<and> iteration_limit (config (toy_finder False 100 (- 1))) = PInt (- 1)"
  apply (simp add: tree_search_def ensure_tree_def toy_prepare)
  apply (simp add: toy_defs search_loop.simps)
  done

subsection \<open>C8: a time limit of zero\<close>

text \<open>
  C8, as amended. With a time limit of 0, and a wall clock whose second reading before
  the loop is not below its first, \<^verbatim>\<open>tree_search\<close> runs no iteration: if preparing the
  tree raises, it raises in the state that the preparation left; otherwise it reads the
  clock twice and returns with the iteration count 0, and nothing of the tree is called.
\<close>

theorem zero_time_limit_runs_no_iteration:
  assumes "num_of (time_limit (config f)) = Some 0"
    and "ensure_tree K T f = (r, f1)"
    and "time_time T (world f1) = (time0, w1)"
    and "time_time T w1 = (t1, w2)"
    and "time0 \<le> t1"
  shows "tree_search K T f =
           (case r of
              Inl e \<Rightarrow> Some (Inl e, f1)
            | Inr u \<Rightarrow>
                Some (Inr (t1 - time0),
                      f1\<lparr>world := w2,
                         search_stats := \<lparr>returned_first = Some False, iterations = Some 0,
                                           time = Some (t1 - time0)\<rparr>\<rparr>))"
proof (cases r)
  case (Inl e)
  with assms(2) show ?thesis by (simp add: tree_search_def)
next
  case (Inr u)
  define f2 where "f2 = f1\<lparr>search_stats :=
                       \<lparr>returned_first = Some False, iterations = Some 0, time = None\<rparr>\<rparr>"
  have "config (f2\<lparr>world := w2\<rparr>) = config f"
    using ensure_tree_frame[OF assms(2)] by (simp add: f2_def)
  then have "loop_guard (t1 - time0) 1 (config (f2\<lparr>world := w2\<rparr>)) = Inr False"
    using assms(1,5) by (simp add: loop_guard_def)
  from search_loop_stop[OF this, of T time0]
  show ?thesis
    using assms(2,3,4) Inr by (simp add: tree_search_def f2_def)
qed

theorem zero_time_limit_runs_no_iteration_witness:
  "tree_search toy_context (toy_tree True 2) (toy_finder True 0 100) =
     Some (Inr 0, (toy_finder True 0 100)\<lparr>tree := Some Tree,
        search_stats := \<lparr>returned_first = Some False, iterations = Some 0, time = Some 0\<rparr>\<rparr>)"
proof -
  have h1: "num_of (time_limit (config (toy_finder True 0 100))) = Some 0"
    by (simp add: toy_defs)
  have h2: "ensure_tree toy_context (toy_tree True 2) (toy_finder True 0 100)
      = (Inr (), (toy_finder True 0 100)\<lparr>tree := Some Tree\<rparr>)"
    using toy_prepare[of True 2 True 0 100] by (simp add: ensure_tree_def toy_defs)
  have h3: "time_time (toy_tree True 2) (world ((toy_finder True 0 100)\<lparr>tree := Some Tree\<rparr>))
      = (0, toy_world0)"
    by (simp add: toy_defs)
  have h4: "time_time (toy_tree True 2) toy_world0 = (0, toy_world0)"
    by (simp add: toy_defs)
  have h5: "(0::real) \<le> 0" by simp
  from zero_time_limit_runs_no_iteration[OF h1 h2 h3 h4 h5]
  show ?thesis by (simp add: toy_defs)
qed

text \<open>
  The claim as stated fails when the clock runs backwards: the second reading is below
  the first, the elapsed time is negative and so below the limit 0, and iterations run
  until the iteration limit stops them.
\<close>

theorem zero_time_limit_backward_clock_counterexample:
  "tree_search toy_context backward_clock_tree (toy_finder False 0 2) =
     Some (Inr (- 9), (toy_finder False 0 2)
        \<lparr>world := toy_world0\<lparr>clock := 10\<rparr>, tree := Some Tree,
         search_stats := \<lparr>returned_first = Some False, iterations = Some 2, time = Some (- 9)\<rparr>\<rparr>)
   \<and> time_limit (config (toy_finder False 0 2)) = PInt 0"
  by (simp add: tree_search_def ensure_tree_def prepare_tree_def target_smiles_def
      toy_context_simps toy_finder_def init_def set_target_mol_def toy_config_def toy_world0_def
      loop_guard_def iteration_def backward_clock_tree_simps backward_clock_descend
      search_loop.simps)

subsection \<open>C9: the policy key of the settings\<close>

text \<open>
  C9. In the dictionary of \<^verbatim>\<open>_get_settings\<close>, a selection of exactly one expansion
  policy stands as a single value under \<^verbatim>\<open>policy\<close>, and there is no key
  \<^verbatim>\<open>policies\<close>; a selection of more than one stands as the whole list under
  \<^verbatim>\<open>policies\<close>, and there is no key \<^verbatim>\<open>policy\<close>. The \<^verbatim>\<open>request\<close> of every response
  of \<^verbatim>\<open>run_from_json\<close> is that dictionary for the state the call leaves, so it follows
  the same rule.
\<close>

theorem policy_key_follows_selection_count:
  "(get_settings K f = Inr d \<longrightarrow>
      (length (expansion_selection K (world f)) = 1 \<longrightarrow>
         d ''policy'' = Some (expansion_selection K (world f) ! 0) \<and> d ''policies'' = None) \<and>
      (1 < length (expansion_selection K (world f)) \<longrightarrow>
         d ''policies'' = Some (PList (expansion_selection K (world f))) \<and> d ''policy'' = None)) \<and>
   (run_from_json K T A params f = Some (Inr resp, f') \<longrightarrow>
      (length (expansion_selection K (world f')) = 1 \<longrightarrow>
         request resp ''policy'' = Some (expansion_selection K (world f') ! 0) \<and>
         request resp ''policies'' = None) \<and>
      (1 < length (expansion_selection K (world f')) \<longrightarrow>
         request resp ''policies'' = Some (PList (expansion_selection K (world f'))) \<and>
         request resp ''policy'' = None))"
  using get_settings_policy_key[of K f d]
    get_settings_policy_key[OF run_from_json_request, of K T A params f resp f']
  by auto

text \<open>A request with one policy, and one with two.\<close>

theorem policy_key_follows_selection_count_witness:
  "(\<exists>resp f'. run_from_json toy_context (toy_tree True 2) toy_analysis toy_request
                  (init (toy_config False 0 0) toy_world0) = Some (Inr resp, f') \<and>
               request resp ''policy'' = Some (PStr ''uspto'') \<and>
               request resp ''policies'' = None) \<and>
   (\<exists>resp f'. run_from_json toy_context (toy_tree True 2) toy_analysis
                  (toy_request(''policy'' := None,
                               ''policies'' \<mapsto> PList [PStr ''uspto'', PStr ''ringbreaker'']))
                  (init (toy_config False 0 0) toy_world0) = Some (Inr resp, f') \<and>
               request resp ''policies'' = Some (PList [PStr ''uspto'', PStr ''ringbreaker'']) \<and>
               request resp ''policy'' = None)"
proof -
  have "\<exists>resp f'. run_from_json toy_context (toy_tree True 2) toy_analysis toy_request
                  (init (toy_config False 0 0) toy_world0) = Some (Inr resp, f') \<and>
               expansion_selection toy_context (world f') = [PStr ''uspto'']"
    by (simp add: toy_request_def toy_run_defs)
  then obtain resp1 f1 where
    r1: "run_from_json toy_context (toy_tree True 2) toy_analysis toy_request
                  (init (toy_config False 0 0) toy_world0) = Some (Inr resp1, f1)"
    and s1: "expansion_selection toy_context (world f1) = [PStr ''uspto'']"
    by blast
  have "\<exists>resp f'. run_from_json toy_context (toy_tree True 2) toy_analysis
                  (toy_request(''policy'' := None,
                               ''policies'' \<mapsto> PList [PStr ''uspto'', PStr ''ringbreaker'']))
                  (init (toy_config False 0 0) toy_world0) = Some (Inr resp, f') \<and>
               expansion_selection toy_context (world f')
                 = [PStr ''uspto'', PStr ''ringbreaker'']"
    by (simp add: toy_request_def toy_run_defs)
  then obtain resp2 f2 where
    r2: "run_from_json toy_context (toy_tree True 2) toy_analysis
                  (toy_request(''policy'' := None,
                               ''policies'' \<mapsto> PList [PStr ''uspto'', PStr ''ringbreaker'']))
                  (init (toy_config False 0 0) toy_world0) = Some (Inr resp2, f2)"
    and s2: "expansion_selection toy_context (world f2) = [PStr ''uspto'', PStr ''ringbreaker'']"
    by blast
  from r1 s1
    policy_key_follows_selection_count[where K = toy_context and T = "toy_tree True 2"
      and A = toy_analysis and params = toy_request
      and f = "init (toy_config False 0 0) toy_world0" and resp = resp1 and f' = f1]
  have a: "request resp1 ''policy'' = Some (PStr ''uspto'') \<and> request resp1 ''policies'' = None"
    by simp
  from r2 s2
    policy_key_follows_selection_count[where K = toy_context and T = "toy_tree True 2"
      and A = toy_analysis
      and params = "toy_request(''policy'' := None,
                               ''policies'' \<mapsto> PList [PStr ''uspto'', PStr ''ringbreaker''])"
      and f = "init (toy_config False 0 0) toy_world0" and resp = resp2 and f' = f2]
  have b: "request resp2 ''policies'' = Some (PList [PStr ''uspto'', PStr ''ringbreaker'']) \<and>
           request resp2 ''policy'' = None"
    by simp
  from r1 a r2 b show ?thesis by blast
qed

subsection \<open>C10: searching without a target\<close>

text \<open>
  C10, as amended. On a controller without a target, reading \<^verbatim>\<open>target_smiles\<close> raises
  \<^verbatim>\<open>AttributeError\<close>. \<^verbatim>\<open>tree_search\<close> raises it too when the controller has no tree:
  the implicit \<^verbatim>\<open>prepare_tree\<close> fails at the read, and no tree is created, no statistics
  are reset and no search runs. A controller without a target has no tree in every state
  that the methods of the class, assignments to its configuration and changes inside
  the collaborators lead to.
\<close>

theorem search_without_target_fails:
  assumes "target_mol f = None"
  shows "target_smiles K f = Inl (AttributeError ''smiles'') \<and>
         (tree f = None \<longrightarrow>
            (\<exists>f'. tree_search K T f = Some (Inl (AttributeError ''smiles''), f') \<and>
                  tree f' = None \<and> target_mol f' = None \<and> search_stats f' = search_stats f \<and>
                  config f' = config f \<and> analysis f' = analysis f \<and> routes f' = routes f)) \<and>
         (reachable K T A f \<longrightarrow> tree f = None)"
proof (intro conjI impI)
  show "target_smiles K f = Inl (AttributeError ''smiles'')"
    using assms by (simp add: target_smiles_def)
next
  assume "tree f = None"
  with assms show "\<exists>f'. tree_search K T f = Some (Inl (AttributeError ''smiles''), f') \<and>
                  tree f' = None \<and> target_mol f' = None \<and> search_stats f' = search_stats f \<and>
                  config f' = config f \<and> analysis f' = analysis f \<and> routes f' = routes f"
    by (simp add: target_smiles_def tree_search_def ensure_tree_def prepare_tree_def Let_def)
next
  assume "reachable K T A f"
  from reachable_tree_has_target[OF this] assms show "tree f = None"
    by (simp add: tree_has_target_def)
qed

text \<open>A controller fresh from \<^verbatim>\<open>__init__\<close>.\<close>

theorem search_without_target_fails_witness:
  "target_smiles toy_context (init (toy_config False 100 100) toy_world0 :: (toy_world, toy_obj) finder)
      = Inl (AttributeError ''smiles'') \<and>
   tree_search toy_context (toy_tree True 2) (init (toy_config False 100 100) toy_world0)
      = Some (Inl (AttributeError ''smiles''), init (toy_config False 100 100) toy_world0) \<and>
   tree (init (toy_config False 100 100) toy_world0 :: (toy_world, toy_obj) finder) = None"
proof -
  have r: "reachable toy_context (toy_tree True 2) toy_analysis
      (init (toy_config False 100 100) toy_world0)"
    by (rule by_init)
  have t: "target_mol (init (toy_config False 100 100) toy_world0 :: (toy_world, toy_obj) finder) = None"
    by (simp add: init_def)
  from r search_without_target_fails[OF t, where K = toy_context and T = "toy_tree True 2"
      and A = toy_analysis]
  show ?thesis
    by (simp add: tree_search_def ensure_tree_def prepare_tree_def target_smiles_def init_def
        toy_context_def toy_config_def toy_world0_def)
qed

text \<open>
  The claim as stated fails for a controller whose attribute \<^verbatim>\<open>tree\<close> has been assigned
  directly while it has no target: \<^verbatim>\<open>tree_search\<close> skips the preparation and runs the
  search on that tree.
\<close>

theorem search_with_assigned_tree_counterexample:
  "target_mol ((init (toy_config False 100 1) toy_world0 :: (toy_world, toy_obj) finder)
                 \<lparr>tree := Some Tree\<rparr>) = None \<and>
   tree_search toy_context (toy_tree False 2)
       ((init (toy_config False 100 1) toy_world0)\<lparr>tree := Some Tree\<rparr>) =
     Some (Inr 3, (init (toy_config False 100 1) toy_world0)
        \<lparr>tree := Some Tree, world := toy_world0\<lparr>clock := 3\<rparr>,
         search_stats := \<lparr>returned_first = Some False, iterations = Some 1, time = Some 3\<rparr>\<rparr>)"
  by (simp add: tree_search_def toy_defs search_loop.simps)

end
